theory Spec2Isabelle
  imports Complex_Main "HOL-Library.Sublist" "HOL-Library.List_Lexorder" "HOL-Library.Char_ord"
begin

section \<open>Numbers, strings and the helpers of the JavaScript runtime\<close>

text \<open>
  The service is \<^verbatim>\<open>services/metaService.js\<close>, one class \<^verbatim>\<open>MetaService\<close>.
  A JavaScript number is an IEEE 754 double. It is modelled by the real number it
  denotes, and every division, multiplication and addition of the source by the exact
  operation followed by \<open>to_double\<close>, the rounding to the nearest double (ties to the
  even significand, gradual underflow), as IEEE 754 defines these operations. Maximum,
  minimum, comparison, \<^verbatim>\<open>Math.round\<close> and \<^verbatim>\<open>parseInt\<close> are exact on doubles. Infinity
  and NaN are not modelled: a result beyond the largest double stays a finite real; the
  comparisons of the tier chains do not tell such a real from Infinity.
  A numeric field of an upstream record stands for the double that \<^verbatim>\<open>parseFloat\<close> reads
  from it, an absent field for \<open>0\<close> (the source writes \<^verbatim>\<open>parseFloat(x || 0)\<close> throughout),
  an absent list for the empty list (\<^verbatim>\<open>x || []\<close>).
\<close>

subsection \<open>Doubles\<close>

function binade :: "real \<Rightarrow> int" where
  \<comment> \<open>The exponent \<open>e\<close> with \<open>2 powi e \<le> \<bar>x\<bar> < 2 powi (e + 1)\<close>.\<close>
  "binade x =
     (if x = 0 then 0
      else if 2 \<le> \<bar>x\<bar> then binade (x / 2) + 1
      else if \<bar>x\<bar> < 1 then binade (x * 2) - 1
      else 0)"
  by pat_completeness auto
termination
proof (relation "measure (\<lambda>x. nat \<bar>\<lfloor>log 2 \<bar>x\<bar>\<rfloor>\<bar>)")
  show "wf (measure (\<lambda>x. nat \<bar>\<lfloor>log 2 \<bar>x\<bar>\<rfloor>\<bar>))" by simp
next
  fix x :: real
  assume x: "x \<noteq> 0" and big: "2 \<le> \<bar>x\<bar>"
  have l: "log 2 \<bar>x / 2\<bar> = log 2 \<bar>x\<bar> - 1"
    using x by (simp add: log_divide)
  have "1 \<le> log 2 \<bar>x\<bar>" using big by (simp add: le_log_iff)
  then have "1 \<le> \<lfloor>log 2 \<bar>x\<bar>\<rfloor>" by linarith
  then show "(x / 2, x) \<in> measure (\<lambda>x. nat \<bar>\<lfloor>log 2 \<bar>x\<bar>\<rfloor>\<bar>)"
    unfolding in_measure l by (simp; linarith)
next
  fix x :: real
  assume x: "x \<noteq> 0" and small: "\<bar>x\<bar> < 1"
  have l: "log 2 \<bar>x * 2\<bar> = log 2 \<bar>x\<bar> + 1"
    using x by (simp add: abs_mult log_mult)
  have "log 2 \<bar>x\<bar> < 0" using small x by simp
  then have "\<lfloor>log 2 \<bar>x\<bar>\<rfloor> \<le> -1" by linarith
  then show "(x * 2, x) \<in> measure (\<lambda>x. nat \<bar>\<lfloor>log 2 \<bar>x\<bar>\<rfloor>\<bar>)"
    unfolding in_measure l by (simp; linarith)
qed

declare binade.simps [simp del]

definition rne :: "real \<Rightarrow> int" where
  \<comment> \<open>The nearest integer, a tie going to the even one.\<close>
  "rne q =
     (let f = \<lfloor>q\<rfloor> in
      if q - of_int f < 1 / 2 then f
      else if 1 / 2 < q - of_int f then f + 1
      else if even f then f else f + 1)"

definition to_double :: "real \<Rightarrow> real" where
  \<comment> \<open>A double has a significand of 53 bits; below \<open>2 powi (- 1022)\<close> the spacing stays
      that of the lowest binade.\<close>
  "to_double x =
     (if x = 0 then 0
      else let e = max (binade x) (- 1022);
               u = 2 powi (e - 52)
           in of_int (rne (x / u)) * u)"

definition is_double :: "real \<Rightarrow> bool" where
  \<comment> \<open>The reals that rounding leaves as they are.\<close>
  "is_double x = (to_double x = x)"

definition js_div :: "real \<Rightarrow> real \<Rightarrow> real" where
  "js_div x y = to_double (x / y)"

definition js_mul :: "real \<Rightarrow> real \<Rightarrow> real" where
  "js_mul x y = to_double (x * y)"

definition js_add :: "real \<Rightarrow> real \<Rightarrow> real" where
  "js_add x y = to_double (x + y)"

subsection \<open>Library functions\<close>

definition parseInt :: "real \<Rightarrow> int" where
  \<comment> \<open>\<^verbatim>\<open>parseInt\<close> drops the fraction: it reads the digits before the decimal point.\<close>
  "parseInt x = (if 0 \<le> x then \<lfloor>x\<rfloor> else \<lceil>x\<rceil>)"

definition Math_round :: "real \<Rightarrow> int" where
  "Math_round x = \<lfloor>x + 1 / 2\<rfloor>"

fun Math_max :: "real list \<Rightarrow> real" where
  \<comment> \<open>\<^verbatim>\<open>Math.max(...xs)\<close>; every call site passes at least one argument.\<close>
  "Math_max (x # xs) = fold max xs x"

definition unique :: "'a list \<Rightarrow> 'a list" where
  \<comment> \<open>\<^verbatim>\<open>[...new Set(xs)]\<close>: the first occurrence of each element, in order.\<close>
  "unique xs = rev (remdups (rev xs))"

definition upper_lower :: "(char \<times> char) list" where
  "upper_lower = zip ''ABCDEFGHIJKLMNOPQRSTUVWXYZ'' ''abcdefghijklmnopqrstuvwxyz''"

definition toLowerCase :: "string \<Rightarrow> string" where
  "toLowerCase s = map (\<lambda>c. case map_of upper_lower c of Some l \<Rightarrow> l | None \<Rightarrow> c) s"

fun str_includes :: "string \<Rightarrow> string \<Rightarrow> bool" where
  \<comment> \<open>\<^verbatim>\<open>s.includes(pat)\<close>: \<open>pat\<close> occurs in \<open>s\<close> as a contiguous substring.\<close>
  "str_includes [] pat = (pat = [])"
| "str_includes (c # s) pat = (prefix pat (c # s) \<or> str_includes s pat)"

section \<open>Upstream records\<close>

record action =
  action_type :: string
  val :: real

record insights =
  spend :: real
  impressions :: real
  clicks :: real
  ctr :: real
  cpm :: real
  cpc :: real
  actions :: "action list"
  action_values :: "action list"
  date_start :: "string option"
  date_stop :: "string option"

section \<open>Enrichment and scoring\<close>

subsection \<open>\<^verbatim>\<open>calculateROASScore\<close>\<close>

definition purchaseActionValues :: "insights \<Rightarrow> action list" where
  "purchaseActionValues ins =
     filter (\<lambda>a. let actionType = toLowerCase (action_type a) in
                (str_includes actionType ''purchase'' \<or>
                 actionType = ''conversion'' \<or>
                 str_includes actionType ''sale'' \<or>
                 str_includes actionType ''order'' \<or>
                 str_includes actionType ''checkout'') \<and>
                \<not> str_includes actionType ''view_content'' \<and>
                \<not> str_includes actionType ''add_to_cart'' \<and>
                \<not> str_includes actionType ''initiate_checkout'')
       (action_values ins)"

definition totalConversionValue :: "insights \<Rightarrow> real" where
  "totalConversionValue ins =
     (if length (purchaseActionValues ins) > 0
      then Math_max (unique (map val (purchaseActionValues ins)))
      else 0)"

definition calculateROASScore :: "insights \<Rightarrow> real \<Rightarrow> int" where
  "calculateROASScore ins spend' =
     (if spend' = 0 then 0
      else let roas = js_div (totalConversionValue ins) spend' in
        if roas \<ge> 4.0 then 100
        else if roas \<ge> 3.0 then 90
        else if roas \<ge> 2.5 then 80
        else if roas \<ge> 2.0 then 70
        else if roas \<ge> 1.5 then 60
        else if roas \<ge> 1.0 then 50
        else if roas \<ge> 0.5 then 30
        else if roas > 0 then 10
        else 0)"

subsection \<open>The other sub-scores\<close>

definition calculateCTRScore :: "real \<Rightarrow> int" where
  \<comment> \<open>The literals \<^verbatim>\<open>0.3\<close> and \<^verbatim>\<open>0.1\<close> are the doubles nearest to them; every other
      threshold of the tier chains is a double as written.\<close>
  "calculateCTRScore ctr' =
     (if ctr' \<ge> 3.0 then 100
      else if ctr' \<ge> 2.0 then 90
      else if ctr' \<ge> 1.5 then 80
      else if ctr' \<ge> 1.0 then 70
      else if ctr' \<ge> 0.5 then 60
      else if ctr' \<ge> to_double 0.3 then 50
      else if ctr' \<ge> to_double 0.1 then 30
      else if ctr' > 0 then 10
      else 0)"

definition volumeScore :: "int \<Rightarrow> int option" where
  \<comment> \<open>The volume tier of \<^verbatim>\<open>calculateClickScore\<close>; \<open>None\<close> is its early \<^verbatim>\<open>return 0\<close>.\<close>
  "volumeScore clicks' =
     (if clicks' \<ge> 1000 then Some 100
      else if clicks' \<ge> 500 then Some 90
      else if clicks' \<ge> 200 then Some 80
      else if clicks' \<ge> 100 then Some 70
      else if clicks' \<ge> 50 then Some 60
      else if clicks' \<ge> 20 then Some 50
      else if clicks' \<ge> 10 then Some 40
      else if clicks' \<ge> 5 then Some 30
      else if clicks' \<ge> 1 then Some 20
      else None)"

definition calculateClickScore :: "int \<Rightarrow> int \<Rightarrow> int" where
  "calculateClickScore clicks' impressions' =
     (if impressions' = 0 then 0
      else let clickRate = js_mul (js_div (of_int clicks') (of_int impressions')) 100 in
        case volumeScore clicks' of
          None \<Rightarrow> 0
        | Some v \<Rightarrow>
            let rateScore = min (js_mul clickRate 20) 100
            in Math_round (js_add (js_mul rateScore (to_double 0.7))
                                  (js_mul (of_int v) (to_double 0.3))))"

definition calculateCPMScore :: "real \<Rightarrow> int" where
  "calculateCPMScore cpm' =
     (if cpm' \<le> 5 then 100
      else if cpm' \<le> 10 then 90
      else if cpm' \<le> 15 then 80
      else if cpm' \<le> 20 then 70
      else if cpm' \<le> 30 then 60
      else if cpm' \<le> 50 then 50
      else if cpm' \<le> 75 then 30
      else if cpm' \<le> 100 then 10
      else 0)"

definition calculateCPCScore :: "real \<Rightarrow> int \<Rightarrow> int" where
  "calculateCPCScore cpc' clicks' =
     (if clicks' = 0 then 0
      else if cpc' \<le> 0.5 then 100
      else if cpc' \<le> 1.0 then 90
      else if cpc' \<le> 1.5 then 80
      else if cpc' \<le> 2.0 then 70
      else if cpc' \<le> 3.0 then 60
      else if cpc' \<le> 5.0 then 50
      else if cpc' \<le> 8.0 then 30
      else if cpc' \<le> 12.0 then 10
      else 0)"

subsection \<open>\<^verbatim>\<open>calculatePerformanceScore\<close>\<close>

definition calculatePerformanceScore :: "insights \<Rightarrow> int" where
  "calculatePerformanceScore ins =
     (let spend' = spend ins;
          impressions' = parseInt (impressions ins);
          clicks' = parseInt (clicks ins);
          ctr' = ctr ins;
          cpm' = cpm ins;
          cpc' = cpc ins
      in if spend' = 0 \<or> impressions' = 0 then 0
         else
           let weightedScore =
                 js_add
                   (js_add
                      (js_add
                         (js_add
                            (js_mul (of_int (calculateROASScore ins spend')) (to_double 0.40))
                            (js_mul (of_int (calculateCTRScore ctr')) (to_double 0.25)))
                         (js_mul (of_int (calculateClickScore clicks' impressions'))
                            (to_double 0.20)))
                      (js_mul (of_int (calculateCPMScore cpm')) (to_double 0.08)))
                   (js_mul (of_int (calculateCPCScore cpc' clicks')) (to_double 0.07))
           in Math_round (min weightedScore 100))"

subsection \<open>The tier table of the specification\<close>

text \<open>
  The specification gives the ROAS sub-score as a table of thresholds, read from the top:
  the first row whose threshold the ratio reaches gives the score, a positive ratio below
  every row gives 10, anything else 0.
\<close>

definition roas_table :: "(real \<times> int) list" where
  "roas_table = [(4.0, 100), (3.0, 90), (2.5, 80), (2.0, 70), (1.5, 60), (1.0, 50), (0.5, 30)]"

definition roas_tier :: "real \<Rightarrow> int" where
  "roas_tier r =
     (case find (\<lambda>(t, s). r \<ge> t) roas_table of
        Some (t, s) \<Rightarrow> s
      | None \<Rightarrow> if r > 0 then 10 else 0)"

subsection \<open>\<^verbatim>\<open>getResultsData\<close> (inside \<^verbatim>\<open>getTodaySpendData\<close>)\<close>

definition purchaseActions :: "action list \<Rightarrow> action list" where
  "purchaseActions as =
     filter (\<lambda>a. action_type a = ''purchase'' \<or>
                action_type a = ''onsite_web_purchase'' \<or>
                action_type a = ''onsite_web_app_purchase'' \<or>
                action_type a = ''omni_purchase'' \<or>
                action_type a = ''web_in_store_purchase'') as"

record results_data =
  results :: real
  costOfResults :: real

definition getResultsData :: "insights \<Rightarrow> results_data" where
  "getResultsData d =
     (let results' = Math_max (map (\<lambda>a. of_int (parseInt (val a))) (purchaseActions (actions d)) @ [0]);
          costOfResults' = (if results' > 0 then js_div (spend d) results' else 0)
      in \<lparr>results = results', costOfResults = costOfResults'\<rparr>)"

section \<open>The service state\<close>

text \<open>
  The constructor assigns \<^verbatim>\<open>this.cacheDurations\<close> twice. The second object replaces the
  first, so the durations the service works with are those of the second; it has no
  \<^verbatim>\<open>default\<close> entry.
\<close>

definition cacheDurations_first :: "(string \<times> int) list" where
  "cacheDurations_first =
     [(''default'', 120000), (''ad_insights'', 600000), (''account'', 300000),
      (''ads_list'', 300000)]"

definition cacheDurations :: "(string \<times> int) list" where
  "cacheDurations =
     [(''account'', 10 * 60 * 1000), (''ads'', 10 * 60 * 1000), (''campaigns'', 10 * 60 * 1000),
      (''adsets'', 10 * 60 * 1000), (''todaySpend'', 2 * 60 * 1000),
      (''campaignInsights'', 5 * 60 * 1000), (''creatives'', 30 * 60 * 1000)]"

datatype jsnum = NaN | Num int

definition truthy :: "jsnum \<Rightarrow> bool" where
  \<comment> \<open>A number is truthy unless it is 0 or NaN.\<close>
  "truthy e = (case e of NaN \<Rightarrow> False | Num n \<Rightarrow> n \<noteq> 0)"

definition js_less :: "int \<Rightarrow> jsnum \<Rightarrow> bool" where
  \<comment> \<open>\<^verbatim>\<open>t < e\<close>: every comparison with NaN is false.\<close>
  "js_less t e = (case e of NaN \<Rightarrow> False | Num n \<Rightarrow> t < n)"

definition js_ge :: "int \<Rightarrow> jsnum \<Rightarrow> bool" where
  "js_ge t e = (case e of NaN \<Rightarrow> False | Num n \<Rightarrow> t \<ge> n)"

text \<open>
  An error value: \<open>response_status\<close> is \<^verbatim>\<open>error.response.status\<close> (\<open>None\<close> when the
  error has no \<^verbatim>\<open>response\<close>), \<open>upstream_message\<close> is
  \<^verbatim>\<open>error.response.data.error.message\<close>, \<open>message\<close> is \<^verbatim>\<open>error.message\<close>.
\<close>

datatype js_error =
  JsError (response_status: "nat option") (upstream_message: "string option") (message: string)

text \<open>
  A queued request. The source stores the \<^verbatim>\<open>resolve\<close> and \<^verbatim>\<open>reject\<close> functions of
  the caller's promise in it; \<open>caller\<close> names that promise.
\<close>

record request =
  endpoint :: string
  params :: "(string \<times> string) list"
  cacheType :: string
  caller :: nat

text \<open>
  \<^verbatim>\<open>processRequestQueue\<close> is an asynchronous function: it runs until it awaits, and
  continues when what it awaits settles. \<open>drain_state\<close> says where it waits: nowhere
  (it is not running), at the throttle timer for a request (with the time the timer is
  due), at the HTTP call of \<^verbatim>\<open>executeRequest\<close> for a request, or at the back-off timer.
\<close>

datatype drain_state =
  Idle
| Throttling request int
| InFlight request
| BackingOff request int

record 'v service =
  cache :: "string \<rightharpoonup> 'v"
  cacheExpiry :: "string \<rightharpoonup> jsnum"
  requestQueue :: "request list"
  isProcessingQueue :: bool
  lastRequestTime :: int
  now :: int
  drain :: drain_state
  dispatched :: "(request \<times> int) list"
  settled :: "(nat \<times> (js_error + 'v)) list"

text \<open>
  \<open>now\<close> is the clock that \<^verbatim>\<open>Date.now()\<close> reads, in milliseconds. \<open>dispatched\<close>
  records each call of \<^verbatim>\<open>executeRequest\<close> with its time, \<open>settled\<close> each call of a
  request's \<^verbatim>\<open>resolve\<close> or \<^verbatim>\<open>reject\<close>; both are observations, the source has no such
  fields. The cache file on disk is not modelled.
\<close>

definition new_service :: "int \<Rightarrow> 'v service" where
  \<comment> \<open>The state the constructor leaves, when the cache file is absent, at time \<open>t\<close>.\<close>
  "new_service t =
     \<lparr>cache = Map.empty, cacheExpiry = Map.empty, requestQueue = [],
      isProcessingQueue = False, lastRequestTime = 0, now = t, drain = Idle,
      dispatched = [], settled = []\<rparr>"

definition requestDelay :: int where
  "requestDelay = 25"

section \<open>The cache store\<close>

definition getFromCache :: "string \<Rightarrow> 'v service \<Rightarrow> 'v option \<times> 'v service" where
  "getFromCache cacheKey s =
     (case cacheExpiry s cacheKey of
        None \<Rightarrow> (None, s)
      | Some expiry \<Rightarrow>
          if truthy expiry \<and> js_less (now s) expiry then (cache s cacheKey, s)
          else if truthy expiry \<and> js_ge (now s) expiry
          then (None, s\<lparr>cache := (cache s)(cacheKey := None),
                         cacheExpiry := (cacheExpiry s)(cacheKey := None)\<rparr>)
          else (None, s))"

definition duration_of :: "string \<Rightarrow> int option" where
  \<comment> \<open>\<^verbatim>\<open>this.cacheDurations[cacheType] || this.cacheDurations.default\<close>; \<open>None\<close> is
      \<^verbatim>\<open>undefined\<close>.\<close>
  "duration_of cacheType' =
     (case map_of cacheDurations cacheType' of
        Some d \<Rightarrow> if d \<noteq> 0 then Some d else map_of cacheDurations ''default''
      | None \<Rightarrow> map_of cacheDurations ''default'')"

definition setCache :: "string \<Rightarrow> 'v \<Rightarrow> string \<Rightarrow> 'v service \<Rightarrow> 'v service" where
  "setCache cacheKey data cacheType' s =
     (let expiry = (case duration_of cacheType' of
                      None \<Rightarrow> NaN
                    | Some duration \<Rightarrow> Num (now s + duration))
      in s\<lparr>cache := (cache s)(cacheKey \<mapsto> data),
           cacheExpiry := (cacheExpiry s)(cacheKey \<mapsto> expiry)\<rparr>)"

section \<open>The request queue\<close>

subsection \<open>\<^verbatim>\<open>executeRequest\<close>\<close>

definition join :: "string \<Rightarrow> string list \<Rightarrow> string" where
  "join sep xs = (case xs of [] \<Rightarrow> [] | y # ys \<Rightarrow> y @ concat (map (\<lambda>z. sep @ z) ys))"

definition getCacheKey :: "string \<Rightarrow> (string \<times> string) list \<Rightarrow> string" where
  \<comment> \<open>The keys of an object are distinct, so sorting the keys and reading each value is
      sorting the entries by key.\<close>
  "getCacheKey endpoint' params' =
     (let paramString = join ''&'' (map (\<lambda>(key, v). key @ ''='' @ v) (sort_key fst params'))
      in endpoint' @ ''?'' @ paramString)"

definition cache_busting :: "(string \<times> string) list \<Rightarrow> bool" where
  \<comment> \<open>\<^verbatim>\<open>params._t\<close> is truthy: present and not the empty string.\<close>
  "cache_busting params' = (case map_of params' ''_t'' of None \<Rightarrow> False | Some t \<Rightarrow> t \<noteq> [])"

text \<open>
  \<^verbatim>\<open>executeRequest\<close> awaits once, at \<^verbatim>\<open>axios.get\<close>. \<open>executeRequest_cached\<close> is its
  part before the call: \<open>Some\<close> is the cached payload it returns without calling.
  \<open>executeRequest_settle\<close> is its part after the call has settled with \<open>reply\<close>: on
  success it caches and returns the payload, on failure its \<^verbatim>\<open>catch\<close> throws a new
  \<^verbatim>\<open>Error\<close> that carries a message only. Payloads are response objects, which are truthy.
\<close>

definition executeRequest_cached :: "request \<Rightarrow> 'v service \<Rightarrow> 'v option \<times> 'v service" where
  "executeRequest_cached r s =
     (let cacheKey = getCacheKey (endpoint r) (params r)
      in if \<not> cache_busting (params r) then getFromCache cacheKey s else (None, s))"

definition wrap_error :: "js_error \<Rightarrow> js_error" where
  "wrap_error error =
     JsError None None
       (''Meta API request failed: '' @
          (case upstream_message error of
             Some m \<Rightarrow> if m \<noteq> [] then m else message error
           | None \<Rightarrow> message error))"

definition executeRequest_settle ::
    "request \<Rightarrow> js_error + 'v \<Rightarrow> 'v service \<Rightarrow> (js_error + 'v) \<times> 'v service" where
  "executeRequest_settle r reply s =
     (case reply of
        Inr data \<Rightarrow>
          (Inr data, setCache (getCacheKey (endpoint r) (params r)) data (cacheType r) s)
      | Inl error \<Rightarrow> (Inl (wrap_error error), s))"

subsection \<open>\<^verbatim>\<open>processRequestQueue\<close>\<close>

definition resolved :: "request \<Rightarrow> 'v \<Rightarrow> 'v service \<Rightarrow> 'v service" where
  \<comment> \<open>\<^verbatim>\<open>request.resolve(result); this.lastRequestTime = Date.now();\<close>\<close>
  "resolved r result s =
     s\<lparr>settled := settled s @ [(caller r, Inr result)], lastRequestTime := now s\<rparr>"

definition attempt :: "request \<Rightarrow> 'v service \<Rightarrow> bool \<times> 'v service" where
  \<comment> \<open>The call of \<^verbatim>\<open>executeRequest\<close> in the \<^verbatim>\<open>try\<close> block, up to its await: \<open>True\<close> when
      the cache answered and the request is resolved, \<open>False\<close> when the HTTP call is
      under way.\<close>
  "attempt r s =
     (let s1 = s\<lparr>dispatched := dispatched s @ [(r, now s)]\<rparr>
      in case executeRequest_cached r s1 of
           (Some cachedData, s2) \<Rightarrow> (True, resolved r cachedData s2)
         | (None, s2) \<Rightarrow> (False, s2\<lparr>drain := InFlight r\<rparr>))"

lemma requestQueue_getFromCache: "requestQueue (snd (getFromCache k s)) = requestQueue s"
  by (simp add: getFromCache_def split: option.splits)

lemma requestQueue_attempt: "requestQueue (snd (attempt r s)) = requestQueue s"
proof -
  have "requestQueue (snd (executeRequest_cached r s')) = requestQueue s'" for s' :: "'a service"
    by (simp add: executeRequest_cached_def Let_def requestQueue_getFromCache)
  from this [of "s\<lparr>dispatched := dispatched s @ [(r, now s)]\<rparr>"] show ?thesis
    by (auto simp: attempt_def Let_def resolved_def split: prod.splits option.splits)
qed

function run_queue :: "'v service \<Rightarrow> 'v service" where
  \<comment> \<open>The \<^verbatim>\<open>while\<close> loop, from its test to the next await or to its end.\<close>
  "run_queue s =
     (case requestQueue s of
        [] \<Rightarrow> s\<lparr>isProcessingQueue := False, drain := Idle\<rparr>
      | request # rest \<Rightarrow>
          let s1 = s\<lparr>requestQueue := rest\<rparr>;
              timeSinceLastRequest = now s1 - lastRequestTime s1
          in if timeSinceLastRequest < requestDelay
             then s1\<lparr>drain := Throttling request (now s1 + (requestDelay - timeSinceLastRequest))\<rparr>
             else (case attempt request s1 of
                     (True, s2) \<Rightarrow> run_queue s2
                   | (False, s2) \<Rightarrow> s2))"
  by pat_completeness auto
termination
proof (relation "measure (\<lambda>s. length (requestQueue s))")
  show "wf (measure (\<lambda>s. length (requestQueue s)))" by simp
next
  fix s :: "'v service" and request rest s1 t x s2 b
  assume q: "requestQueue s = request # rest" and s1: "s1 = s\<lparr>requestQueue := rest\<rparr>"
    and att: "(b, s2) = attempt request s1"
  have "requestQueue s2 = requestQueue s1"
    using requestQueue_attempt [of request s1] att [symmetric] by simp
  then show "(s2, s) \<in> measure (\<lambda>s. length (requestQueue s))"
    using q s1 by simp
qed

declare run_queue.simps [simp del]

definition processRequestQueue :: "'v service \<Rightarrow> 'v service" where
  "processRequestQueue s =
     (if isProcessingQueue s \<or> length (requestQueue s) = 0 then s
      else run_queue (s\<lparr>isProcessingQueue := True\<rparr>))"

definition makeRequest :: "request \<Rightarrow> 'v service \<Rightarrow> 'v service" where
  "makeRequest r s = processRequestQueue (s\<lparr>requestQueue := requestQueue s @ [r]\<rparr>)"

definition after_throttle :: "request \<Rightarrow> 'v service \<Rightarrow> 'v service" where
  \<comment> \<open>The throttle timer has fired: the \<^verbatim>\<open>try\<close> block goes on to \<^verbatim>\<open>executeRequest\<close>.\<close>
  "after_throttle r s = (case attempt r s of (True, s2) \<Rightarrow> run_queue s2 | (False, s2) \<Rightarrow> s2)"

definition after_reply :: "request \<Rightarrow> js_error + 'v \<Rightarrow> 'v service \<Rightarrow> 'v service" where
  \<comment> \<open>The HTTP call has settled: the rest of the \<^verbatim>\<open>try\<close> block, or the \<^verbatim>\<open>catch\<close> block up
      to its await.\<close>
  "after_reply r reply s =
     (case executeRequest_settle r reply s of
        (Inr result, s1) \<Rightarrow> run_queue (resolved r result s1)
      | (Inl error, s1) \<Rightarrow>
          if response_status error = Some 429
          then s1\<lparr>drain := BackingOff r (now s1 + 5000)\<rparr>
          else run_queue (s1\<lparr>settled := settled s1 @ [(caller r, Inl error)]\<rparr>))"

definition after_backoff :: "request \<Rightarrow> 'v service \<Rightarrow> 'v service" where
  \<comment> \<open>The back-off timer has fired: \<^verbatim>\<open>this.requestQueue.unshift(request)\<close>, and the loop
      goes round.\<close>
  "after_backoff r s = run_queue (s\<lparr>requestQueue := r # requestQueue s\<rparr>)"

subsection \<open>What happens to the service\<close>

text \<open>
  A caller calls \<^verbatim>\<open>makeRequest\<close>, the clock advances, the timer that
  \<^verbatim>\<open>processRequestQueue\<close> waits for fires (never before it is due), or the HTTP call it
  waits for settles. An event that the state does not wait for changes nothing.
\<close>

datatype 'v event = Call request | Tick nat | Timer | Reply "js_error + 'v"

fun step :: "'v event \<Rightarrow> 'v service \<Rightarrow> 'v service" where
  "step (Call r) s = makeRequest r s"
| "step (Tick d) s = s\<lparr>now := now s + int d\<rparr>"
| "step Timer s =
     (case drain s of
        Throttling r due \<Rightarrow> if due \<le> now s then after_throttle r s else s
      | BackingOff r due \<Rightarrow> if due \<le> now s then after_backoff r s else s
      | _ \<Rightarrow> s)"
| "step (Reply reply) s =
     (case drain s of
        InFlight r \<Rightarrow> after_reply r reply s
      | _ \<Rightarrow> s)"

definition run :: "'v event list \<Rightarrow> 'v service \<Rightarrow> 'v service" where
  "run events s = fold step events s"

subsection \<open>Observations on a run\<close>

text \<open>
  The requests that a list of events enqueues, in order; the request that the loop has
  taken from the queue and not yet dispatched; and the invariant that ties the dispatch
  log to the requests enqueued so far.
\<close>

fun calls_of :: "'v event list \<Rightarrow> request list" where
  "calls_of [] = []"
| "calls_of (Call r # evs) = r # calls_of evs"
| "calls_of (_ # evs) = calls_of evs"

definition waiting :: "'v service \<Rightarrow> request list" where
  "waiting s = (case drain s of Throttling r _ \<Rightarrow> [r] | BackingOff r _ \<Rightarrow> [r] | _ \<Rightarrow> [])"

definition queue_inv :: "request list \<Rightarrow> 'v service \<Rightarrow> bool" where
  "queue_inv calls s =
     (map fst (dispatched s) @ waiting s @ requestQueue s = calls \<and>
      (isProcessingQueue s \<longleftrightarrow> drain s \<noteq> Idle) \<and>
      (drain s = Idle \<longrightarrow> requestQueue s = []) \<and>
      (\<forall>r d. drain s \<noteq> BackingOff r d))"

section \<open>Insight resolution\<close>

subsection \<open>Dates and parameter variants\<close>

text \<open>
  \<^verbatim>\<open>getDateRange\<close> reads the local date from the system clock. \<open>calendar\<close> is what it
  reads: the local date of today, of the day before, and of the instant \<open>n\<close> days back,
  each as \<^verbatim>\<open>YYYY-MM-DD\<close>.
\<close>

record calendar =
  today :: string
  yesterday :: string
  days_back :: "nat \<Rightarrow> string"

record time_range =
  since :: string
  until :: string

definition getDateRange :: "calendar \<Rightarrow> string \<Rightarrow> time_range" where
  "getDateRange cal range' =
     (let until' = today cal in
      if range' = ''today'' \<or> range' = ''24h'' \<or> range' = ''1d''
      then \<lparr>since = until', until = until'\<rparr>
      else if range' = ''yesterday''
      then \<lparr>since = yesterday cal, until = yesterday cal\<rparr>
      else if range' = ''7d'' then \<lparr>since = days_back cal 7, until = until'\<rparr>
      else if range' = ''30d'' then \<lparr>since = days_back cal 30, until = until'\<rparr>
      else if range' = ''90d'' then \<lparr>since = days_back cal 90, until = until'\<rparr>
      else \<lparr>since = today cal, until = until'\<rparr>)"

datatype date_param = TimeRange time_range | DatePreset string

text \<open>
  One parameter variant. The \<^verbatim>\<open>fields\<close>, \<^verbatim>\<open>level\<close> and \<^verbatim>\<open>limit\<close> parameters are the
  same in every variant of a function and are left out; \<open>cache_bust\<close> is the \<^verbatim>\<open>_t\<close>
  parameter that the per-ad \<^verbatim>\<open>getAdInsights\<close> adds.
\<close>

record approach =
  approach_name :: string
  date_param :: date_param
  attribution_window :: string
  cache_bust :: "string option"

text \<open>
  \<^verbatim>\<open>response.data\<close> of an insights response: \<open>None\<close> when the response has no
  \<^verbatim>\<open>data\<close>. \<^verbatim>\<open>makeRequest\<close> is taken as given in this section: \<open>upstream endpoint a\<close>
  is what the promise of \<^verbatim>\<open>makeRequest(endpoint, a.params, ...)\<close> settles with.
\<close>

type_synonym response = "insights list option"

type_synonym upstream = "string \<Rightarrow> approach \<Rightarrow> js_error + response"

definition empty_insights :: insights where
  \<comment> \<open>The object \<^verbatim>\<open>{}\<close>: every field absent.\<close>
  "empty_insights =
     \<lparr>spend = 0, impressions = 0, clicks = 0, ctr = 0, cpm = 0, cpc = 0, actions = [],
      action_values = [], date_start = None, date_stop = None\<rparr>"

subsection \<open>\<^verbatim>\<open>getAdSpecificInsights\<close>\<close>

definition approaches_specific :: "time_range \<Rightarrow> string \<Rightarrow> approach list" where
  "approaches_specific timeRange dateRange =
     [\<lparr>approach_name = ''time_range_1d_click'', date_param = TimeRange timeRange,
       attribution_window = ''1d_click'', cache_bust = None\<rparr>,
      \<lparr>approach_name = ''time_range_7d_click'', date_param = TimeRange timeRange,
       attribution_window = ''7d_click'', cache_bust = None\<rparr>,
      \<lparr>approach_name = ''date_preset_today'',
       date_param = DatePreset (if dateRange = ''today'' then ''today''
                                else if dateRange = ''yesterday'' then ''yesterday''
                                else ''last_7d''),
       attribution_window = ''1d_click'', cache_bust = None\<rparr>]"

definition isDateSpecific :: "string \<Rightarrow> insights \<Rightarrow> bool" where
  \<comment> \<open>\<^verbatim>\<open>data.date_start && data.date_stop && data.date_start === data.date_stop &&
      data.date_start === timeRange.since\<close>\<close>
  "isDateSpecific since' data =
     (case (date_start data, date_stop data) of
        (Some a, Some b) \<Rightarrow> a \<noteq> [] \<and> b \<noteq> [] \<and> a = b \<and> a = since'
      | _ \<Rightarrow> False)"

fun try_specific :: "string \<Rightarrow> (approach \<Rightarrow> js_error + response) \<Rightarrow> approach list \<Rightarrow> insights option" where
  "try_specific since' request [] = None"
| "try_specific since' request (a # rest) =
     (case request a of
        Inl error \<Rightarrow> try_specific since' request rest
      | Inr response \<Rightarrow>
          (case response of
             Some (data # _) \<Rightarrow>
               if isDateSpecific since' data then Some data
               else try_specific since' request rest
           | _ \<Rightarrow> try_specific since' request rest))"

definition getAdSpecificInsights :: "calendar \<Rightarrow> upstream \<Rightarrow> string \<Rightarrow> string \<Rightarrow> insights option" where
  "getAdSpecificInsights cal upstream adId dateRange =
     (let endpoint' = adId @ ''/insights'';
          timeRange = getDateRange cal dateRange
      in try_specific (since timeRange) (upstream endpoint')
           (approaches_specific timeRange dateRange))"

subsection \<open>\<^verbatim>\<open>processAdInsightsData\<close>\<close>

record processed =
  metrics :: insights
  performance_score :: int
  processed_date_start :: "string option"
  processed_date_stop :: "string option"

definition linkClicks :: "action list \<Rightarrow> int" where
  "linkClicks as =
     (case find (\<lambda>a. action_type a = ''link_click'') as of
        Some linkClickAction \<Rightarrow> parseInt (val linkClickAction)
      | None \<Rightarrow> 0)"

definition processAdInsightsData :: "insights \<Rightarrow> processed" where
  "processAdInsightsData insightData =
     (let metrics' =
            \<lparr>spend = spend insightData,
             impressions = of_int (parseInt (impressions insightData)),
             clicks = of_int (linkClicks (actions insightData)),
             ctr = ctr insightData, cpm = cpm insightData, cpc = cpc insightData,
             actions = actions insightData, action_values = action_values insightData,
             date_start = None, date_stop = None\<rparr>
      in \<lparr>metrics = metrics', performance_score = calculatePerformanceScore metrics',
          processed_date_start = date_start insightData,
          processed_date_stop = date_stop insightData\<rparr>)"

subsection \<open>\<^verbatim>\<open>getAdInsights\<close>, the definition for one ad (line 978)\<close>

definition date_preset_of :: "string \<Rightarrow> string" where
  "date_preset_of dateRange =
     (if dateRange = ''today'' then ''today''
      else if dateRange = ''yesterday'' then ''yesterday''
      else if dateRange = ''7d'' then ''last_7d''
      else if dateRange = ''30d'' then ''last_30d''
      else ''last_7d'')"

definition approaches_ad :: "string \<Rightarrow> string option \<Rightarrow> approach list" where
  "approaches_ad dateRange t =
     [\<lparr>approach_name = ''date_preset_today_1d_click'',
       date_param = DatePreset (date_preset_of dateRange),
       attribution_window = ''1d_click'', cache_bust = t\<rparr>,
      \<lparr>approach_name = ''date_preset_today_7d_click'',
       date_param = DatePreset (date_preset_of dateRange),
       attribution_window = ''7d_click'', cache_bust = t\<rparr>,
      \<lparr>approach_name = ''date_preset_today_1d_view'',
       date_param = DatePreset (date_preset_of dateRange),
       attribution_window = ''1d_view'', cache_bust = t\<rparr>]"

text \<open>
  The loop computes \<^verbatim>\<open>isDateSpecific\<close> and logs it, and does not branch on it: every
  response with a \<^verbatim>\<open>data\<close> field is processed and returned
  (\<^verbatim>\<open>response.data[0] || {}\<close> is always an object).
\<close>

fun try_ad :: "(approach \<Rightarrow> js_error + response) \<Rightarrow> approach list \<Rightarrow> processed option" where
  "try_ad request [] = None"
| "try_ad request (a # rest) =
     (case request a of
        Inl error \<Rightarrow> try_ad request rest
      | Inr response \<Rightarrow>
          (case response of
             None \<Rightarrow> try_ad request rest
           | Some records \<Rightarrow>
               let data = (case records of [] \<Rightarrow> empty_insights | d # _ \<Rightarrow> d)
               in Some (processAdInsightsData data)))"

definition is_set :: "string option \<Rightarrow> bool" where
  \<comment> \<open>A string argument is truthy: given and not empty.\<close>
  "is_set t = (case t of None \<Rightarrow> False | Some x \<Rightarrow> x \<noteq> [])"

definition getAdInsights ::
    "upstream \<Rightarrow> string \<Rightarrow> string \<Rightarrow> string option \<Rightarrow> processed service
       \<Rightarrow> processed option \<times> processed service" where
  "getAdInsights upstream adId dateRange t s =
     (let cacheKey = ''ad_insights_'' @ adId @ ''_'' @ dateRange;
          (cachedData, s1) = (if \<not> is_set t then getFromCache cacheKey s else (None, s))
      in (case cachedData of
            Some c \<Rightarrow> (Some c, s1)
          | None \<Rightarrow>
              (let endpoint' = adId @ ''/insights''
               in (case try_ad (upstream endpoint')
                          (approaches_ad dateRange (if is_set t then t else None)) of
                     Some processedData \<Rightarrow>
                       (Some processedData, setCache cacheKey processedData ''300'' s1)
                   | None \<Rightarrow> (None, s1)))))"

subsection \<open>Ads\<close>

text \<open>
  An ad as the \<^verbatim>\<open>/ads\<close> endpoint lists it, and as the service returns it:
  \<open>insights_data\<close> is \<^verbatim>\<open>ad.insights.data\<close> (absent: empty), \<open>ad_metrics\<close> and
  \<open>ad_performance_score\<close> are the \<^verbatim>\<open>metrics\<close> and \<^verbatim>\<open>performance_score\<close> the service
  adds (\<open>None\<close>: \<^verbatim>\<open>null\<close> or absent). The creative, the image URL and the status colour
  are left out.
\<close>

record ad =
  ad_id :: string
  ad_name :: string
  insights_data :: "insights list"
  ad_metrics :: "insights option"
  ad_performance_score :: "int option"

definition looks_like_adset :: "string \<Rightarrow> bool" where
  "looks_like_adset name' =
     (let name = toLowerCase name' in
      str_includes name ''| static |'' \<or>
      str_includes name ''| dynamic |'' \<or>
      str_includes name ''| video |'' \<or>
      str_includes name ''adset'' \<or>
      str_includes name ''campaign'' \<or>
      (length name < 10 \<and> \<not> str_includes name ''ad''))"

definition contains_purchase :: "action \<Rightarrow> bool" where
  \<comment> \<open>\<^verbatim>\<open>action.action_type && action.action_type.includes('purchase')\<close>\<close>
  "contains_purchase a = (action_type a \<noteq> [] \<and> str_includes (action_type a) ''purchase'')"

definition toFixed2 :: "real \<Rightarrow> real" where
  \<comment> \<open>The number that \<^verbatim>\<open>x.toFixed(2)\<close> writes: the double \<open>x\<close>, taken exactly, rounded
      to two decimals, a tie going away from zero.\<close>
  "toFixed2 x =
     (let d = to_double x
      in if 0 \<le> d then of_int \<lfloor>d * 100 + 1 / 2\<rfloor> / 100
         else - (of_int \<lfloor>- d * 100 + 1 / 2\<rfloor> / 100))"

definition processBasicAdsData :: "ad list \<Rightarrow> ad list" where
  "processBasicAdsData ads =
     (let actualAds = filter (\<lambda>ad. \<not> looks_like_adset (ad_name ad)) ads
      in map (\<lambda>ad. ad\<lparr>insights_data := [], ad_metrics := None, ad_performance_score := None\<rparr>)
           actualAds)"

definition getAdsData :: "js_error + ad list \<Rightarrow> js_error + ad list" where
  \<comment> \<open>\<open>ads_reply\<close> is what \<^verbatim>\<open>makeRequest\<close> settles with for the \<^verbatim>\<open>/ads\<close> endpoint
      (\<^verbatim>\<open>response.data || []\<close>).\<close>
  "getAdsData ads_reply =
     (case ads_reply of Inl error \<Rightarrow> Inl error | Inr ads \<Rightarrow> Inr (processBasicAdsData ads))"

subsection \<open>\<^verbatim>\<open>getAdInsights\<close>, the definition for a batch of ads (line 665)\<close>

definition approaches_batch :: "time_range \<Rightarrow> string \<Rightarrow> approach list" where
  "approaches_batch timeRange dateRange =
     [\<lparr>approach_name = ''direct_insights'', date_param = TimeRange timeRange,
       attribution_window = ''7d_click'', cache_bust = None\<rparr>,
      \<lparr>approach_name = ''direct_insights_1d_view'', date_param = TimeRange timeRange,
       attribution_window = ''1d_view'', cache_bust = None\<rparr>,
      \<lparr>approach_name = ''direct_insights_7d_view'', date_param = TimeRange timeRange,
       attribution_window = ''7d_view'', cache_bust = None\<rparr>,
      \<lparr>approach_name = ''direct_insights_preset'',
       date_param = DatePreset (if dateRange = ''today'' then ''today''
                                else if dateRange = ''yesterday'' then ''yesterday''
                                else if dateRange = ''7d'' then ''last_7d''
                                else ''last_30d''),
       attribution_window = ''1d_click'', cache_bust = None\<rparr>]"

definition default_action_values :: "processed \<Rightarrow> processed" where
  \<comment> \<open>The function that the loop maps over the processed data.\<close>
  "default_action_values ad' =
     (let hasPurchaseConversionValues =
            list_ex (\<lambda>a. contains_purchase a \<and> val a > 0) (action_values (metrics ad'))
      in if \<not> hasPurchaseConversionValues
         then
           let adConversions = filter contains_purchase (actions (metrics ad'));
               adConversionCount = sum_list (map (\<lambda>conv. parseInt (val conv)) adConversions);
               conversionValue = js_mul (of_int adConversionCount) 50;
               defaultActionValues =
                 (if conversionValue > 0
                  then [\<lparr>action_type = ''purchase'', val = toFixed2 conversionValue\<rparr>]
                  else [])
           in ad'\<lparr>metrics := (metrics ad')\<lparr>action_values := defaultActionValues\<rparr>\<rparr>
         else ad')"

text \<open>
  The loop hands the whole array \<^verbatim>\<open>response.data\<close> to \<^verbatim>\<open>processAdInsightsData\<close>, which
  reads the fields of one record: on an array every one of them is \<^verbatim>\<open>undefined\<close>, as
  on \<^verbatim>\<open>{}\<close>. What comes back is one object, and the loop calls \<^verbatim>\<open>map\<close> on it, which
  only arrays have: the call throws a TypeError, inside the \<^verbatim>\<open>try\<close> block.
\<close>

datatype 'a js_value = JsArray "'a list" | JsObject 'a

definition js_map :: "('a \<Rightarrow> 'b) \<Rightarrow> 'a js_value \<Rightarrow> js_error + 'b list" where
  "js_map f v =
     (case v of
        JsArray xs \<Rightarrow> Inr (map f xs)
      | JsObject _ \<Rightarrow> Inl (JsError None None ''processedData.map is not a function''))"

definition processAdInsightsData_of_array :: "insights list \<Rightarrow> processed js_value" where
  "processAdInsightsData_of_array records = JsObject (processAdInsightsData empty_insights)"

fun try_batch :: "string \<Rightarrow> (approach \<Rightarrow> js_error + response) \<Rightarrow> approach list \<Rightarrow> processed list option" where
  "try_batch since' request [] = None"
| "try_batch since' request (a # rest) =
     (case request a of
        Inl error \<Rightarrow> try_batch since' request rest
      | Inr response \<Rightarrow>
          (case response of
             Some (firstAd # others) \<Rightarrow>
               if isDateSpecific since' firstAd
               then (case js_map default_action_values
                            (processAdInsightsData_of_array (firstAd # others)) of
                       Inr result \<Rightarrow> Some result
                     | Inl error \<Rightarrow> try_batch since' request rest)
               else try_batch since' request rest
           | _ \<Rightarrow> try_batch since' request rest))"

definition metrics_actions :: "ad \<Rightarrow> js_error + action list" where
  \<comment> \<open>\<^verbatim>\<open>ad.metrics.actions\<close>: a TypeError when \<^verbatim>\<open>ad.metrics\<close> is \<^verbatim>\<open>null\<close>.\<close>
  "metrics_actions ad' =
     (case ad_metrics ad' of
        None \<Rightarrow> Inl (JsError None None ''Cannot read properties of null'')
      | Some m \<Rightarrow> Inr (actions m))"

definition conversion_count :: "action list \<Rightarrow> int" where
  "conversion_count as = sum_list (map (\<lambda>conv. parseInt (val conv)) (filter contains_purchase as))"

fun total_ad_conversions :: "ad list \<Rightarrow> int \<Rightarrow> js_error + int" where
  \<comment> \<open>\<^verbatim>\<open>adsData.reduce(..., 0)\<close>\<close>
  "total_ad_conversions [] acc = Inr acc"
| "total_ad_conversions (ad' # rest) acc =
     (case metrics_actions ad' of
        Inl error \<Rightarrow> Inl error
      | Inr as \<Rightarrow> total_ad_conversions rest (acc + conversion_count as))"

definition distribute_to :: "real \<Rightarrow> int \<Rightarrow> ad \<Rightarrow> js_error + ad" where
  "distribute_to totalAccountConversionValue totalAdConversions ad' =
     (case metrics_actions ad' of
        Inl error \<Rightarrow> Inl error
      | Inr as \<Rightarrow>
          let adConversionCount = conversion_count as;
              conversionValue =
                (if totalAccountConversionValue > 0
                 then (if totalAdConversions > 0 \<and> adConversionCount > 0
                       then js_mul (js_div (of_int adConversionCount)
                                      (of_int totalAdConversions))
                              totalAccountConversionValue
                       else 0)
                 else js_mul (of_int adConversionCount) 50);
              proportionalActionValues =
                (if conversionValue > 0
                 then [\<lparr>action_type = ''purchase'', val = toFixed2 conversionValue\<rparr>]
                 else [])
          in Inr (ad'\<lparr>ad_metrics :=
                       map_option (\<lambda>m. m\<lparr>action_values := proportionalActionValues\<rparr>)
                         (ad_metrics ad')\<rparr>))"

fun map_throwing :: "('a \<Rightarrow> js_error + 'b) \<Rightarrow> 'a list \<Rightarrow> js_error + 'b list" where
  \<comment> \<open>\<^verbatim>\<open>xs.map(f)\<close> for an \<open>f\<close> that may throw.\<close>
  "map_throwing f [] = Inr []"
| "map_throwing f (x # xs) =
     (case f x of
        Inl error \<Rightarrow> Inl error
      | Inr y \<Rightarrow> (case map_throwing f xs of Inl error \<Rightarrow> Inl error | Inr ys \<Rightarrow> Inr (y # ys)))"

datatype batch_result = FromInsights "processed list" | FromAds "ad list"

text \<open>
  \<open>ads_reply\<close> and \<open>account\<close> stand for the two further calls of the fallback:
  \<^verbatim>\<open>getAdsData\<close>'s request and \<^verbatim>\<open>getTodaySpendData\<close> (its result, or the error it
  throws). \<open>custom\<close> is the pair \<^verbatim>\<open>startDate\<close>, \<^verbatim>\<open>endDate\<close>.
\<close>

definition getAdInsights_batch ::
    "calendar \<Rightarrow> upstream \<Rightarrow> string \<Rightarrow> js_error + ad list \<Rightarrow> js_error + insights
       \<Rightarrow> string \<Rightarrow> string option \<times> string option \<Rightarrow> js_error + batch_result" where
  "getAdInsights_batch cal upstream adAccountId ads_reply account dateRange custom =
     (let endpoint' = adAccountId @ ''/insights'';
          timeRange =
            (case custom of
               (Some startDate, Some endDate) \<Rightarrow>
                 if dateRange = ''custom'' \<and> startDate \<noteq> [] \<and> endDate \<noteq> []
                 then \<lparr>since = startDate, until = endDate\<rparr>
                 else getDateRange cal dateRange
             | _ \<Rightarrow> getDateRange cal dateRange)
      in (case try_batch (since timeRange) (upstream endpoint')
                 (approaches_batch timeRange dateRange) of
            Some result \<Rightarrow> Inr (FromInsights result)
          | None \<Rightarrow>
              (case getAdsData ads_reply of
                 Inl error \<Rightarrow> Inl error
               | Inr adsData \<Rightarrow>
                   if length adsData = 0 then Inr (FromAds [])
                   else
                     (case account of
                        Inl error \<Rightarrow> Inl error
                      | Inr accountInsights \<Rightarrow>
                          (let totalAccountConversionValue =
                                 foldl (\<lambda>acc a. js_add acc (val a)) 0
                                   (filter contains_purchase (action_values accountInsights))
                           in (case total_ad_conversions adsData 0 of
                                 Inl error \<Rightarrow> Inl error
                               | Inr totalAdConversions \<Rightarrow>
                                   (case map_throwing
                                           (distribute_to totalAccountConversionValue
                                              totalAdConversions) adsData of
                                      Inl error \<Rightarrow> Inl error
                                    | Inr result \<Rightarrow> Inr (FromAds result))))))))"

subsection \<open>\<^verbatim>\<open>processAdsData\<close>\<close>

definition first_insights :: "ad \<Rightarrow> insights" where
  \<comment> \<open>\<^verbatim>\<open>ad.insights?.data?.[0] || {}\<close>\<close>
  "first_insights ad' = (case insights_data ad' of [] \<Rightarrow> empty_insights | i # _ \<Rightarrow> i)"

definition actualAds :: "ad list \<Rightarrow> ad list" where
  "actualAds ads = filter (\<lambda>ad. \<not> looks_like_adset (ad_name ad)) ads"

definition totalAdSpend :: "ad list \<Rightarrow> real" where
  "totalAdSpend ads =
     foldl (\<lambda>acc ad. js_add acc (spend (first_insights ad))) 0 (actualAds ads)"

definition totalAccountConversions :: "insights \<Rightarrow> int" where
  "totalAccountConversions accountConversionData =
     sum_list (map (\<lambda>a. parseInt (val a))
                 (filter contains_purchase (actions accountConversionData)))"

definition totalAccountConversionValue :: "insights \<Rightarrow> real" where
  "totalAccountConversionValue accountConversionData =
     (let purchaseValues = filter contains_purchase (action_values accountConversionData);
          uniqueValues = unique (map val purchaseValues);
          v = (if length uniqueValues > 0 then Math_max uniqueValues else 0)
      in if v = 0 \<and> totalAccountConversions accountConversionData > 0
         then js_mul (of_int (totalAccountConversions accountConversionData)) 50
         else v)"

definition not_purchase :: "action \<Rightarrow> bool" where
  "not_purchase a =
     (\<not> str_includes (action_type a) ''purchase'' \<and>
      \<not> str_includes (action_type a) ''omni_purchase'')"

definition proportional :: "ad list \<Rightarrow> insights option \<Rightarrow> insights \<Rightarrow> action list \<times> action list" where
  \<comment> \<open>The actions and action values that \<^verbatim>\<open>processAdsData\<close> gives an ad with first
      insights record \<open>i\<close>.\<close>
  "proportional ads accountConversionData i =
     (let proportionalActions = filter not_purchase (actions i);
          proportionalActionValues = filter not_purchase (action_values i)
      in case accountConversionData of
           None \<Rightarrow> (proportionalActions, proportionalActionValues)
         | Some acd \<Rightarrow>
             if totalAdSpend ads > 0 \<and> spend i > 0
             then
               let adSpend = spend i;
                   adSpendRatio = js_div adSpend (totalAdSpend ads);
                   adConversions =
                     Math_round (js_mul (of_int (totalAccountConversions acd)) adSpendRatio);
                   adConversionValue = js_mul (totalAccountConversionValue acd) adSpendRatio
               in if adConversions > 0
                  then (proportionalActions
                          @ [\<lparr>action_type = ''purchase'', val = of_int adConversions\<rparr>],
                        if adConversionValue > 0
                        then proportionalActionValues
                               @ [\<lparr>action_type = ''purchase'', val = toFixed2 adConversionValue\<rparr>]
                        else proportionalActionValues)
                  else (proportionalActions, proportionalActionValues)
             else (proportionalActions, proportionalActionValues))"

definition processAdsData :: "ad list \<Rightarrow> insights option \<Rightarrow> ad list" where
  "processAdsData ads accountConversionData =
     map (\<lambda>ad'.
            let i = first_insights ad';
                (proportionalActions, proportionalActionValues) =
                  proportional ads accountConversionData i
            in ad'\<lparr>ad_metrics :=
                     Some \<lparr>spend = spend i,
                           impressions = of_int (parseInt (impressions i)),
                           clicks = of_int (parseInt (clicks i)),
                           ctr = ctr i, cpm = cpm i, cpc = cpc i,
                           actions = proportionalActions,
                           action_values = proportionalActionValues,
                           date_start = None, date_stop = None\<rparr>,
                   ad_performance_score := Some (calculatePerformanceScore i)\<rparr>)
       (actualAds ads)"

section \<open>The class and its public interface\<close>

text \<open>
  The methods of \<^verbatim>\<open>class MetaService\<close> in the order of the class body, each with the
  line of its definition. The name \<^verbatim>\<open>getAdInsights\<close> is defined twice.
\<close>

definition MetaService_methods :: "(string \<times> nat) list" where
  "MetaService_methods =
     [(''getCacheKey'', 74), (''getFromCache'', 80), (''setCache'', 96),
      (''loadCacheFromFile'', 112), (''saveCacheToFile'', 133), (''cleanExpiredCache'', 154),
      (''clearCache'', 165), (''getCacheStats'', 182), (''makeRequest'', 198),
      (''processRequestQueue'', 212), (''executeRequest'', 248), (''getAccountInfo'', 283),
      (''getTodaySpendData'', 291), (''getCampaignInsights'', 470),
      (''getCampaignInsightsDirect'', 509), (''testConversionValues'', 545),
      (''getAdInsights'', 665), (''getAdsData'', 860), (''processBasicAdsData'', 912),
      (''getAdInsights'', 978), (''processAdInsightsData'', 1083),
      (''processBulkAdInsightsData'', 1114), (''getCampaignsData'', 1183),
      (''getAdsetsData'', 1212), (''processAdsData'', 1245), (''getCreativeDetails'', 1426),
      (''getImageUrlFromHash'', 1478), (''getHighQualityImageUrl'', 1500),
      (''optimizeImageUrl'', 1511), (''calculatePerformanceScore'', 1539),
      (''calculateROASScore'', 1580), (''calculateCTRScore'', 1622),
      (''calculateClickScore'', 1635), (''calculateCPMScore'', 1658),
      (''calculateCPCScore'', 1671), (''getStatusColor'', 1687),
      (''getDetailedConversionData'', 1704), (''getAdSpecificInsights'', 1743),
      (''getDateRange'', 1812)]"

definition prototype :: "string \<rightharpoonup> nat" where
  \<comment> \<open>A class body defines its methods one after the other as properties of one prototype
      object; defining a name that is there already replaces its value.\<close>
  "prototype = fold (\<lambda>(name, line) m. m(name \<mapsto> line)) MetaService_methods Map.empty"

datatype jsval = Undefined | Str string | Obj "(string \<times> jsval) list"

definition to_text :: "jsval \<Rightarrow> string" where
  \<comment> \<open>The text a template literal or a string concatenation makes of a value.\<close>
  "to_text v =
     (case v of Undefined \<Rightarrow> ''undefined'' | Str s \<Rightarrow> s | Obj _ \<Rightarrow> ''[object Object]'')"

definition arg :: "jsval list \<Rightarrow> nat \<Rightarrow> jsval" where
  "arg args n = (if n < length args then args ! n else Undefined)"

definition field :: "jsval \<Rightarrow> string \<Rightarrow> jsval" where
  "field v name =
     (case v of
        Obj fs \<Rightarrow> (case map_of fs name of Some x \<Rightarrow> x | None \<Rightarrow> Undefined)
      | _ \<Rightarrow> Undefined)"

definition or_default :: "string \<Rightarrow> jsval \<Rightarrow> string" where
  \<comment> \<open>A parameter with a default value: the default replaces \<^verbatim>\<open>undefined\<close> only.\<close>
  "or_default d v = (case v of Undefined \<Rightarrow> d | _ \<Rightarrow> to_text v)"

definition text_option :: "jsval \<Rightarrow> string option" where
  "text_option v = (case v of Undefined \<Rightarrow> None | _ \<Rightarrow> Some (to_text v))"

datatype call_result =
  PerAd "processed option \<times> processed service"
| Batch "js_error + batch_result"
| NotAFunction

text \<open>
  A call \<^verbatim>\<open>metaService.getAdInsights(...args)\<close>: the function found under the name on
  the prototype is applied to the arguments, each definition binding them with its own
  parameter list.
\<close>

definition call_getAdInsights ::
    "calendar \<Rightarrow> upstream \<Rightarrow> string \<Rightarrow> js_error + ad list \<Rightarrow> js_error + insights
       \<Rightarrow> jsval list \<Rightarrow> processed service \<Rightarrow> call_result" where
  "call_getAdInsights cal upstream adAccountId ads_reply account args s =
     (case prototype ''getAdInsights'' of
        None \<Rightarrow> NotAFunction
      | Some line \<Rightarrow>
          if line = 978
          then PerAd (getAdInsights upstream (to_text (arg args 0))
                        (or_default ''today'' (arg args 1)) (text_option (arg args 2)) s)
          else if line = 665
          then
            (case arg args 0 of
               Undefined \<Rightarrow>
                 Batch (Inl (JsError None None ''Cannot destructure property of undefined''))
             | options \<Rightarrow>
                 Batch (getAdInsights_batch cal upstream adAccountId ads_reply account
                          (or_default ''30d'' (field options ''dateRange''))
                          (text_option (field options ''startDate''),
                           text_option (field options ''endDate''))))
          else NotAFunction)"

definition route_ad_insights_args :: "string \<Rightarrow> string \<Rightarrow> string \<Rightarrow> jsval list" where
  \<comment> \<open>The arguments of the call in the handler of \<^verbatim>\<open>GET /ad-insights\<close>: one options
      object.\<close>
  "route_ad_insights_args dateRange limit status =
     [Obj [(''dateRange'', Str dateRange), (''limit'', Str limit), (''status'', Str status)]]"

section \<open>Example records\<close>

definition ex_zero :: insights where
  "ex_zero = \<lparr>spend = 0, impressions = 1000, clicks = 50, ctr = 5, cpm = 3, cpc = 0.25,
     actions = [], action_values = [\<lparr>action_type = ''purchase'', val = 500\<rparr>],
     date_start = None, date_stop = None\<rparr>"

definition ex_roas :: insights where
  "ex_roas = \<lparr>spend = 100, impressions = 1000, clicks = 0, ctr = 0, cpm = 3, cpc = 0,
     actions = [], action_values = [\<lparr>action_type = ''purchase'', val = 250\<rparr>],
     date_start = None, date_stop = None\<rparr>"

definition ex_dedup :: insights where
  "ex_dedup = \<lparr>spend = 100, impressions = 1000, clicks = 10, ctr = 1, cpm = 3, cpc = 1,
     actions = [\<lparr>action_type = ''purchase'', val = 5\<rparr>,
                \<lparr>action_type = ''link_click'', val = 40\<rparr>,
                \<lparr>action_type = ''omni_purchase'', val = 5\<rparr>,
                \<lparr>action_type = ''onsite_web_purchase'', val = 8\<rparr>],
     action_values = [\<lparr>action_type = ''purchase'', val = 250\<rparr>,
                \<lparr>action_type = ''omni_purchase'', val = 250\<rparr>,
                \<lparr>action_type = ''onsite_web_purchase'', val = 400\<rparr>],
     date_start = None, date_stop = None\<rparr>"

definition ex_tenths :: insights where
  \<comment> \<open>What \<^verbatim>\<open>parseFloat\<close> reads from a spend of \<^verbatim>\<open>0.1\<close> and a purchase value of
      \<^verbatim>\<open>0.3\<close>: the doubles nearest to one tenth and to three tenths.\<close>
  "ex_tenths = \<lparr>spend = to_double (1 / 10), impressions = 50, clicks = 0, ctr = 0, cpm = 2,
     cpc = 0, actions = [],
     action_values = [\<lparr>action_type = ''purchase'', val = to_double (3 / 10)\<rparr>],
     date_start = None, date_stop = None\<rparr>"

definition ex_quarter :: insights where
  \<comment> \<open>A spend of \<^verbatim>\<open>0.1\<close> and a purchase value of \<^verbatim>\<open>0.25\<close>.\<close>
  "ex_quarter = \<lparr>spend = to_double (1 / 10), impressions = 50, clicks = 0, ctr = 0, cpm = 2,
     cpc = 0, actions = [],
     action_values = [\<lparr>action_type = ''purchase'', val = 1 / 4\<rparr>],
     date_start = None, date_stop = None\<rparr>"

section \<open>Example requests and replies\<close>

definition req_A :: request where
  "req_A = \<lparr>endpoint = ''act_1/insights'', params = [(''level'', ''account'')],
            cacheType = ''todaySpend'', caller = 1\<rparr>"

definition req_B :: request where
  "req_B = \<lparr>endpoint = ''act_1/ads'', params = [(''limit'', ''50''), (''fields'', ''id,name'')],
            cacheType = ''ads'', caller = 2\<rparr>"

definition req_C :: request where
  "req_C = \<lparr>endpoint = ''act_1/campaigns'', params = [], cacheType = ''campaigns'', caller = 3\<rparr>"

definition rate_limited :: js_error where
  \<comment> \<open>What \<^verbatim>\<open>axios.get\<close> throws on a response with HTTP status 429.\<close>
  "rate_limited =
     JsError (Some 429) (Some ''User request limit reached'')
       ''Request failed with status code 429''"

definition refused :: js_error where
  \<comment> \<open>What \<^verbatim>\<open>axios.get\<close> throws when no connection is made: no response at all.\<close>
  "refused = JsError None None ''connect ECONNREFUSED''"

section \<open>Observations and examples for the insight resolution\<close>

text \<open>
  What the loops test, as predicates on the reply to one variant: the first record of
  the reply, whether that record reports the requested single date, and whether the
  reply has a \<^verbatim>\<open>data\<close> field at all.
\<close>

definition first_record :: "js_error + response \<Rightarrow> insights option" where
  "first_record reply = (case reply of Inr (Some (d # _)) \<Rightarrow> Some d | _ \<Rightarrow> None)"

definition date_matching :: "string \<Rightarrow> js_error + response \<Rightarrow> bool" where
  "date_matching since' reply =
     (case first_record reply of Some d \<Rightarrow> isDateSpecific since' d | None \<Rightarrow> False)"

definition has_data :: "js_error + response \<Rightarrow> bool" where
  "has_data reply = (case reply of Inr (Some _) \<Rightarrow> True | _ \<Rightarrow> False)"

definition first_or_empty :: "js_error + response \<Rightarrow> insights" where
  "first_or_empty reply = (case first_record reply of Some d \<Rightarrow> d | None \<Rightarrow> empty_insights)"

definition purchase_actions_of :: "ad \<Rightarrow> action list" where
  \<comment> \<open>The purchase entries among the actions of a returned ad.\<close>
  "purchase_actions_of out =
     (case ad_metrics out of
        None \<Rightarrow> []
      | Some m \<Rightarrow> filter (\<lambda>a. \<not> not_purchase a) (actions m))"

definition purchase_values_of :: "ad \<Rightarrow> action list" where
  "purchase_values_of out =
     (case ad_metrics out of
        None \<Rightarrow> []
      | Some m \<Rightarrow> filter (\<lambda>a. \<not> not_purchase a) (action_values m))"

definition cal_ex :: calendar where
  "cal_ex = \<lparr>today = ''2024-05-05'', yesterday = ''2024-05-04'',
             days_back = (\<lambda>n. if n = 7 then ''2024-04-28''
                               else if n = 30 then ''2024-04-05'' else ''2024-02-05'')\<rparr>"

definition stale_record :: insights where
  \<comment> \<open>A record for the whole of April.\<close>
  "stale_record =
     empty_insights\<lparr>spend := 12, impressions := 400,
       date_start := Some ''2024-04-01'', date_stop := Some ''2024-04-30''\<rparr>"

definition fresh_record :: insights where
  \<comment> \<open>A record for the fifth of May alone.\<close>
  "fresh_record =
     empty_insights\<lparr>spend := 3, impressions := 90,
       date_start := Some ''2024-05-05'', date_stop := Some ''2024-05-05''\<rparr>"

definition upstream_ex :: upstream where
  \<comment> \<open>An upstream that answers one-day-click attribution with the April record,
      seven-day-click attribution with the record of the day, and fails otherwise.\<close>
  "upstream_ex endpoint' a =
     (if attribution_window a = ''1d_click'' then Inr (Some [stale_record])
      else if attribution_window a = ''7d_click'' then Inr (Some [fresh_record])
      else Inl refused)"

definition upstream_april :: upstream where
  \<comment> \<open>An upstream that answers every variant with the April record.\<close>
  "upstream_april endpoint' a = Inr (Some [stale_record])"

definition ad_30 :: ad where
  "ad_30 =
     \<lparr>ad_id = ''101'', ad_name = ''Spring launch video'',
      insights_data =
        [empty_insights\<lparr>spend := 30, impressions := 1000,
           actions := [\<lparr>action_type = ''link_click'', val = 12\<rparr>,
                       \<lparr>action_type = ''purchase'', val = 40\<rparr>]\<rparr>],
      ad_metrics = None, ad_performance_score = None\<rparr>"

definition ad_70 :: ad where
  "ad_70 =
     \<lparr>ad_id = ''102'', ad_name = ''Autumn carousel ad'',
      insights_data = [empty_insights\<lparr>spend := 70, impressions := 3000\<rparr>],
      ad_metrics = None, ad_performance_score = None\<rparr>"

definition account_10 :: insights where
  \<comment> \<open>Account level: 10 purchases worth 500.\<close>
  "account_10 =
     empty_insights\<lparr>spend := 100,
       actions := [\<lparr>action_type = ''purchase'', val = 10\<rparr>],
       action_values := [\<lparr>action_type = ''purchase'', val = 500\<rparr>]\<rparr>"

definition account_1 :: insights where
  \<comment> \<open>Account level: 1 purchase worth 100.\<close>
  "account_1 =
     empty_insights\<lparr>spend := 100,
       actions := [\<lparr>action_type = ''purchase'', val = 1\<rparr>],
       action_values := [\<lparr>action_type = ''purchase'', val = 100\<rparr>]\<rparr>"

section \<open>Properties of the rounding to a double\<close>

lemma pow2_step: "(2::real) powi (k + 1) = 2 powi k * 2"
  by (simp add: power_int_add)

lemma binade_bounds:
  "x \<noteq> 0 \<Longrightarrow> 2 powi binade x \<le> \<bar>x\<bar> \<and> \<bar>x\<bar> < 2 powi (binade x + 1)"
proof (induction x rule: binade.induct)
  case (1 x)
  show ?case
  proof (cases "2 \<le> \<bar>x\<bar>")
    case True
    then have b: "binade x = binade (x / 2) + 1" using "1.prems" by (subst binade.simps) simp
    have "2 powi binade (x / 2) \<le> \<bar>x / 2\<bar> \<and> \<bar>x / 2\<bar> < 2 powi (binade (x / 2) + 1)"
      using "1.IH"(1) [OF "1.prems" True] "1.prems" by simp
    then show ?thesis unfolding b pow2_step by (simp add: field_simps)
  next
    case False
    show ?thesis
    proof (cases "\<bar>x\<bar> < 1")
      case True
      then have b: "binade x = binade (x * 2) - 1"
        using "1.prems" False by (subst binade.simps) simp
      have "2 powi binade (x * 2) \<le> \<bar>x * 2\<bar> \<and> \<bar>x * 2\<bar> < 2 powi (binade (x * 2) + 1)"
        using "1.IH"(2) [OF "1.prems" False True] "1.prems" by simp
      moreover have "2 powi binade (x * 2) = (2::real) powi (binade (x * 2) - 1) * 2"
        using pow2_step [of "binade (x * 2) - 1"] by simp
      ultimately show ?thesis unfolding b pow2_step by (simp add: field_simps abs_mult)
    next
      case False
      then have "binade x = 0" using \<open>\<not> 2 \<le> \<bar>x\<bar>\<close> "1.prems" by (subst binade.simps) simp
      then show ?thesis using False \<open>\<not> 2 \<le> \<bar>x\<bar>\<close> by simp
    qed
  qed
qed

lemma pow2_less_imp: "(2::real) powi a < 2 powi b \<Longrightarrow> a < b"
proof (rule ccontr)
  assume lt: "(2::real) powi a < 2 powi b" and "\<not> a < b"
  then have "b \<le> a" by simp
  then have "(2::real) powi b \<le> 2 powi a" by (rule power_int_increasing) simp
  with lt show False by simp
qed

lemma binade_mono:
  assumes "x \<noteq> 0" and "\<bar>x\<bar> \<le> \<bar>y\<bar>"
  shows "binade x \<le> binade y"
proof -
  have y: "y \<noteq> 0" using assms by auto
  have "2 powi binade x \<le> \<bar>x\<bar>" using binade_bounds [OF assms(1)] by simp
  also have "\<dots> \<le> \<bar>y\<bar>" by (rule assms(2))
  also have "\<dots> < 2 powi (binade y + 1)" using binade_bounds [OF y] by simp
  finally have "(2::real) powi binade x < 2 powi (binade y + 1)" .
  then have "binade x < binade y + 1" by (rule pow2_less_imp)
  then show ?thesis by simp
qed

lemma binade_minus: "binade (- x) = binade x"
proof (cases "x = 0")
  case True then show ?thesis by simp
next
  case False
  have "binade (- x) \<le> binade x" by (rule binade_mono) (use False in simp_all)
  moreover have "binade x \<le> binade (- x)" by (rule binade_mono) (use False in simp_all)
  ultimately show ?thesis by simp
qed

lemma rne_range: "\<lfloor>q\<rfloor> \<le> rne q \<and> rne q \<le> \<lfloor>q\<rfloor> + 1"
  by (simp add: rne_def Let_def)

lemma rne_of_int [simp]: "rne (of_int n) = n"
  by (simp add: rne_def)

lemma rne_mono: "q \<le> r \<Longrightarrow> rne q \<le> rne r"
proof -
  assume le: "q \<le> r"
  then have fl: "\<lfloor>q\<rfloor> \<le> \<lfloor>r\<rfloor>" by (rule floor_mono)
  show ?thesis
  proof (cases "\<lfloor>q\<rfloor> = \<lfloor>r\<rfloor>")
    case True
    then show ?thesis using le by (auto simp: rne_def Let_def)
  next
    case False
    then have "\<lfloor>q\<rfloor> + 1 \<le> \<lfloor>r\<rfloor>" using fl by simp
    then show ?thesis using rne_range [of q] rne_range [of r] by linarith
  qed
qed

lemma rne_minus: "rne (- q) = - rne q"
proof (cases "q = of_int \<lfloor>q\<rfloor>")
  case True
  then obtain n :: int where "q = of_int n" ..
  then show ?thesis by (simp flip: of_int_minus)
next
  case False
  have f: "\<lfloor>- q\<rfloor> = - \<lfloor>q\<rfloor> - 1"
    using False by (simp add: floor_minus ceiling_altdef)
  have d: "0 < q - of_int \<lfloor>q\<rfloor>" "q - of_int \<lfloor>q\<rfloor> < 1"
    using False by linarith+
  show ?thesis
  proof (cases "q - of_int \<lfloor>q\<rfloor> < 1 / 2")
    case True
    then show ?thesis using d unfolding rne_def Let_def f by simp
  next
    case False
    note nl = this
    show ?thesis
    proof (cases "1 / 2 < q - of_int \<lfloor>q\<rfloor>")
      case True
      then show ?thesis using d unfolding rne_def Let_def f by simp
    next
      case False
      then have "q - of_int \<lfloor>q\<rfloor> = 1 / 2" using nl by simp
      then show ?thesis unfolding rne_def Let_def f by simp
    qed
  qed
qed

lemma to_double_0 [simp]: "to_double 0 = 0"
  by (simp add: to_double_def)

lemma to_double_minus: "to_double (- x) = - to_double x"
  by (simp add: to_double_def Let_def binade_minus rne_minus)

lemma pow2_split: "(2::real) powi (e + 1) = 2 ^ 53 * 2 powi (e - 52)"
proof -
  have "e + 1 = 53 + (e - 52)" by simp
  then have "(2::real) powi (e + 1) = 2 powi (53 + (e - 52))" by (rule arg_cong)
  also have "\<dots> = 2 powi 53 * 2 powi (e - 52)" by (rule power_int_add) simp
  finally show ?thesis by simp
qed

lemma pow2_split': "(2::real) powi e = 2 ^ 52 * 2 powi (e - 52)"
proof -
  have "e = 52 + (e - 52)" by simp
  then have "(2::real) powi e = 2 powi (52 + (e - 52))" by (rule arg_cong)
  also have "\<dots> = 2 powi 52 * 2 powi (e - 52)" by (rule power_int_add) simp
  finally show ?thesis by simp
qed

lemma to_double_pos:
  assumes x: "0 < x"
  shows "0 \<le> to_double x"
    and "to_double x \<le> 2 powi (max (binade x) (- 1022) + 1)"
    and "- 1022 \<le> binade x \<Longrightarrow> 2 powi binade x \<le> to_double x"
proof -
  define e where "e = max (binade x) (- 1022)"
  define u :: real where "u = 2 powi (e - 52)"
  have u: "0 < u" by (simp add: u_def)
  have d: "to_double x = of_int (rne (x / u)) * u"
    using x by (simp add: to_double_def Let_def e_def u_def)
  have "0 \<le> x / u" using x u by simp
  then have "rne 0 \<le> rne (x / u)" by (rule rne_mono)
  then have r0: "0 \<le> rne (x / u)" using rne_of_int [of 0] by simp
  then show "0 \<le> to_double x" using u d by simp
  have "x < 2 powi (binade x + 1)" using binade_bounds [of x] x by simp
  also have "\<dots> \<le> 2 powi (e + 1)" by (rule power_int_increasing) (simp_all add: e_def)
  also have "\<dots> = 2 ^ 53 * u" unfolding u_def by (rule pow2_split)
  finally have "x / u \<le> of_int (2 ^ 53)" using u by (simp add: field_simps)
  then have "rne (x / u) \<le> rne (of_int (2 ^ 53))" by (rule rne_mono)
  then have "rne (x / u) \<le> 2 ^ 53" by (simp only: rne_of_int)
  then have "(of_int (rne (x / u)) :: real) \<le> of_int (2 ^ 53)" by (simp only: of_int_le_iff)
  then have "of_int (rne (x / u)) * u \<le> 2 ^ 53 * u" using u by simp
  then show "to_double x \<le> 2 powi (max (binade x) (- 1022) + 1)"
    unfolding d using pow2_split [of e] by (simp add: e_def u_def)
  show "2 powi binade x \<le> to_double x" if n: "- 1022 \<le> binade x"
  proof -
    have e: "e = binade x" using n by (simp add: e_def)
    have "2 ^ 52 * u = 2 powi binade x" unfolding u_def e by (rule pow2_split' [symmetric])
    also have "\<dots> \<le> x" using binade_bounds [of x] x by simp
    finally have "of_int (2 ^ 52) \<le> x / u" using u by (simp add: field_simps)
    then have "rne (of_int (2 ^ 52)) \<le> rne (x / u)" by (rule rne_mono)
    then have "2 ^ 52 \<le> rne (x / u)" by (simp only: rne_of_int)
    then have "(of_int (2 ^ 52) :: real) \<le> of_int (rne (x / u))" by (simp only: of_int_le_iff)
    then have "2 ^ 52 * u \<le> of_int (rne (x / u)) * u" using u by simp
    then show ?thesis unfolding d using pow2_split' [of e] by (simp add: e u_def)
  qed
qed

lemma to_double_mono_pos:
  assumes "0 < x" and "x \<le> y"
  shows "to_double x \<le> to_double y"
proof -
  have y: "0 < y" using assms by simp
  define ex where "ex = max (binade x) (- 1022)"
  define ey where "ey = max (binade y) (- 1022)"
  have "binade x \<le> binade y" by (rule binade_mono) (use assms in simp_all)
  then have le: "ex \<le> ey" by (simp add: ex_def ey_def)
  show ?thesis
  proof (cases "ex = ey")
    case True
    have "x / 2 powi (ex - 52) \<le> y / 2 powi (ex - 52)"
      using assms by (simp add: divide_right_mono)
    then have "rne (x / 2 powi (ex - 52)) \<le> rne (y / 2 powi (ex - 52))" by (rule rne_mono)
    then have "of_int (rne (x / 2 powi (ex - 52))) * 2 powi (ex - 52)
        \<le> of_int (rne (y / 2 powi (ex - 52))) * (2::real) powi (ex - 52)"
      by (simp add: mult_right_mono)
    then show ?thesis
      using assms y True by (simp add: to_double_def Let_def ex_def ey_def)
  next
    case False
    then have lt: "ex + 1 \<le> ey" using le by simp
    then have n: "- 1022 \<le> binade y" and ey: "ey = binade y"
      by (auto simp: ex_def ey_def)
    have "to_double x \<le> 2 powi (ex + 1)" using to_double_pos(2) [OF assms(1)] by (simp add: ex_def)
    also have "\<dots> \<le> 2 powi ey" using lt by (rule power_int_increasing) simp
    also have "\<dots> \<le> to_double y" unfolding ey by (rule to_double_pos(3) [OF y n])
    finally show ?thesis .
  qed
qed

text \<open>Rounding to the nearest double keeps the order.\<close>

lemma to_double_mono: "x \<le> y \<Longrightarrow> to_double x \<le> to_double y"
proof -
  assume le: "x \<le> y"
  consider "0 < x" | "x \<le> 0" "0 \<le> y" | "y < 0" by linarith
  then show ?thesis
  proof cases
    case 1
    then show ?thesis using le by (rule to_double_mono_pos)
  next
    case 2
    have "to_double x \<le> 0"
    proof (cases "x = 0")
      case False
      then have "0 \<le> to_double (- x)" using 2 by (intro to_double_pos(1)) simp
      then show ?thesis by (simp add: to_double_minus)
    qed simp
    moreover have "0 \<le> to_double y"
    proof (cases "y = 0")
      case False
      then show ?thesis using 2 by (intro to_double_pos(1)) simp
    qed simp
    ultimately show ?thesis by simp
  next
    case 3
    have "to_double (- y) \<le> to_double (- x)"
      by (rule to_double_mono_pos) (use 3 le in simp_all)
    then show ?thesis by (simp add: to_double_minus)
  qed
qed

lemma double_examples:
  "to_double 100 = 100" "to_double 250 = 250" "to_double (1 / 4) = 1 / 4"
  "to_double (5 / 2) = 5 / 2"
  "to_double (3 / 10) = 5404319552844595 / 2 ^ 54"
  "to_double (1 / 10) = 3602879701896397 / 2 ^ 55"
  "to_double (5404319552844595 / 2 ^ 54) = 5404319552844595 / 2 ^ 54"
  "to_double (3602879701896397 / 2 ^ 55) = 3602879701896397 / 2 ^ 55"
  "to_double ((5404319552844595 / 2 ^ 54) / (3602879701896397 / 2 ^ 55))
     = 6755399441055743 / 2 ^ 51"
  "to_double ((1 / 4) / (3602879701896397 / 2 ^ 55)) = 5 / 2"
  by code_simp+

section \<open>Properties of the scoring functions\<close>

subsection \<open>The zero boundary\<close>

text \<open>
  C3. Whenever the spend of a metrics record is 0, or its impressions are 0, the
  performance score is exactly 0, whatever the other fields hold.
\<close>

theorem score_zero_boundary:
  "spend ins = 0 \<or> impressions ins = 0 \<Longrightarrow> calculatePerformanceScore ins = 0"
  by (auto simp: calculatePerformanceScore_def parseInt_def Let_def)

theorem score_zero_boundary_witness:
  "(spend ex_zero = 0 \<or> impressions ex_zero = 0) \<and> calculatePerformanceScore ex_zero = 0"
  using score_zero_boundary [of ex_zero] by (simp add: ex_zero_def)

subsection \<open>The ROAS tiers\<close>

lemma roas_tier_unfold:
  "roas_tier r =
     (if r \<ge> 4.0 then 100 else if r \<ge> 3.0 then 90 else if r \<ge> 2.5 then 80
      else if r \<ge> 2.0 then 70 else if r \<ge> 1.5 then 60 else if r \<ge> 1.0 then 50
      else if r \<ge> 0.5 then 30 else if r > 0 then 10 else 0)"
  by (simp add: roas_tier_def roas_table_def)

lemma calculateROASScore_tier:
  "s \<noteq> 0 \<Longrightarrow> calculateROASScore ins s = roas_tier (js_div (totalConversionValue ins) s)"
  unfolding calculateROASScore_def Let_def roas_tier_unfold by (simp only: if_False)

lemma roas_tier_mono: "r1 \<le> r2 \<Longrightarrow> roas_tier r1 \<le> roas_tier r2"
  unfolding roas_tier_unfold by simp

lemma js_div_mono: "x1 / y1 \<le> x2 / y2 \<Longrightarrow> js_div x1 y1 \<le> js_div x2 y2"
  unfolding js_div_def by (rule to_double_mono)

lemma totalConversionValue_ex_roas: "totalConversionValue ex_roas = 250"
  by (simp add: ex_roas_def totalConversionValue_def purchaseActionValues_def toLowerCase_def
      upper_lower_def unique_def)

lemma purchaseActionValues_ex_dedup:
  "purchaseActionValues ex_dedup =
     [\<lparr>action_type = ''purchase'', val = 250\<rparr>,
      \<lparr>action_type = ''omni_purchase'', val = 250\<rparr>,
      \<lparr>action_type = ''onsite_web_purchase'', val = 400\<rparr>]"
  by (simp add: ex_dedup_def purchaseActionValues_def toLowerCase_def upper_lower_def)

lemma totalConversionValue_ex_dedup: "totalConversionValue ex_dedup = 400"
  by (simp add: totalConversionValue_def purchaseActionValues_ex_dedup unique_def)

lemma totalConversionValue_ex_tenths: "totalConversionValue ex_tenths = to_double (3 / 10)"
  by (simp add: ex_tenths_def totalConversionValue_def purchaseActionValues_def toLowerCase_def
      upper_lower_def unique_def)

lemma totalConversionValue_ex_quarter: "totalConversionValue ex_quarter = 1 / 4"
  by (simp add: ex_quarter_def totalConversionValue_def purchaseActionValues_def toLowerCase_def
      upper_lower_def unique_def)

lemma quotient_examples:
  "js_div 250 100 = 5 / 2"
  "is_double (to_double (1 / 10))" "is_double (to_double (3 / 10))" "is_double (1 / 4)"
  "0 < to_double (1 / 10)"
  "roas_tier (js_div (to_double (3 / 10)) (to_double (1 / 10))) = 80"
  "roas_tier (js_div (1 / 4) (to_double (1 / 10))) = 80"
  "roas_tier ((1 / 4) / to_double (1 / 10)) = 70"
  "roas_tier ((3 / 10) / (1 / 10)) = 90"
  by code_simp+

text \<open>
  C4, as the claim states it, fails. The quotient that \<^verbatim>\<open>calculateROASScore\<close> compares
  with the thresholds is the double that the division returns, not the quotient of the
  two amounts. A spend of \<^verbatim>\<open>0.1\<close> and a purchase value of \<^verbatim>\<open>0.3\<close> score 80, where the
  table has 90 for a ROAS of 3: the quotient of the two doubles is below 3. The same spend
  and a purchase value of \<^verbatim>\<open>0.25\<close> score 80, where the table has 70 for the quotient of
  the two doubles, which is below 2.5: the division rounds it to 2.5.
\<close>

theorem roas_quotient_rounded:
  "0 < spend ex_tenths \<and> is_double (spend ex_tenths) \<and>
   is_double (totalConversionValue ex_tenths) \<and>
   calculateROASScore ex_tenths (spend ex_tenths) = 80 \<and>
   roas_tier ((3 / 10) / (1 / 10)) = 90 \<and>
   0 < spend ex_quarter \<and> is_double (spend ex_quarter) \<and>
   is_double (totalConversionValue ex_quarter) \<and>
   calculateROASScore ex_quarter (spend ex_quarter) = 80 \<and>
   roas_tier (totalConversionValue ex_quarter / spend ex_quarter) = 70"
proof -
  have s: "spend ex_tenths = to_double (1 / 10)" "spend ex_quarter = to_double (1 / 10)"
    by (simp_all add: ex_tenths_def ex_quarter_def)
  have n: "to_double (1 / 10) \<noteq> 0" using quotient_examples(5) by simp
  show ?thesis
    unfolding s totalConversionValue_ex_tenths totalConversionValue_ex_quarter
      calculateROASScore_tier [OF n]
    using quotient_examples by simp
qed

text \<open>
  C4, amended. For every metrics record and every spend above 0, the ROAS sub-score that
  \<^verbatim>\<open>calculateROASScore\<close> returns is the tier the specification's table gives for the
  ROAS as JavaScript computes it: the double nearest to conversion value / spend. With a
  conversion value of 250 and a spend of 100 that ROAS is 2.5 and the sub-score is 80.
\<close>

theorem roas_score_table:
  "spend' > 0 \<Longrightarrow>
     calculateROASScore ins spend' = roas_tier (js_div (totalConversionValue ins) spend') \<and>
     js_div (totalConversionValue ins) spend' = to_double (totalConversionValue ins / spend') \<and>
     (totalConversionValue ins = 250 \<and> spend' = 100
        \<longrightarrow> js_div (totalConversionValue ins) spend' = 5 / 2 \<and>
            calculateROASScore ins spend' = 80)"
proof (intro conjI impI)
  assume pos: "spend' > 0"
  then show "calculateROASScore ins spend' = roas_tier (js_div (totalConversionValue ins) spend')"
    by (simp add: calculateROASScore_tier)
  show "js_div (totalConversionValue ins) spend' = to_double (totalConversionValue ins / spend')"
    by (rule js_div_def)
  assume ex: "totalConversionValue ins = 250 \<and> spend' = 100"
  then show q: "js_div (totalConversionValue ins) spend' = 5 / 2"
    by (simp add: quotient_examples(1))
  have "calculateROASScore ins spend' = roas_tier (js_div (totalConversionValue ins) spend')"
    using ex by (simp add: calculateROASScore_tier)
  also have "\<dots> = 80" unfolding q by (simp add: roas_tier_unfold)
  finally show "calculateROASScore ins spend' = 80" .
qed

theorem roas_score_table_witness:
  "(0::real) < 100 \<and> totalConversionValue ex_roas = 250 \<and>
   js_div (totalConversionValue ex_roas) 100 = 5 / 2 \<and>
   calculateROASScore ex_roas 100 = 80 \<and> roas_tier (5 / 2) = 80"
  using roas_score_table [of 100 ex_roas] totalConversionValue_ex_roas
  by (simp add: roas_tier_unfold)

subsection \<open>Monotone tiers\<close>

text \<open>
  C9. Each sub-score is monotone in its threshold variable: a larger ROAS (conversion value
  / spend, for spends other than 0) never gives a smaller ROAS sub-score, a larger CTR never
  a smaller CTR sub-score, and a smaller CPM, or a smaller CPC at the same number of clicks,
  never a smaller CPM or CPC sub-score. For the ROAS this holds of the quotient of the two
  amounts as well as of the double the division returns, because rounding to the nearest
  double keeps the order.
\<close>

theorem subscore_monotone:
  "(s1 \<noteq> 0 \<and> s2 \<noteq> 0 \<and> totalConversionValue i1 / s1 \<le> totalConversionValue i2 / s2
      \<longrightarrow> calculateROASScore i1 s1 \<le> calculateROASScore i2 s2) \<and>
   (c1 \<le> c2 \<longrightarrow> calculateCTRScore c1 \<le> calculateCTRScore c2) \<and>
   (m2 \<le> m1 \<longrightarrow> calculateCPMScore m1 \<le> calculateCPMScore m2) \<and>
   (p2 \<le> p1 \<longrightarrow> calculateCPCScore p1 k \<le> calculateCPCScore p2 k)"
proof (intro conjI impI)
  assume "s1 \<noteq> 0 \<and> s2 \<noteq> 0 \<and> totalConversionValue i1 / s1 \<le> totalConversionValue i2 / s2"
  then show "calculateROASScore i1 s1 \<le> calculateROASScore i2 s2"
    by (simp add: calculateROASScore_tier roas_tier_mono js_div_mono)
next
  assume "c1 \<le> c2" then show "calculateCTRScore c1 \<le> calculateCTRScore c2"
    by (simp add: calculateCTRScore_def)
next
  assume "m2 \<le> m1" then show "calculateCPMScore m1 \<le> calculateCPMScore m2"
    by (simp add: calculateCPMScore_def)
next
  assume "p2 \<le> p1" then show "calculateCPCScore p1 k \<le> calculateCPCScore p2 k"
    by (simp add: calculateCPCScore_def)
qed

theorem subscore_monotone_witness:
  "((100::real) \<noteq> 0 \<and> (100::real) \<noteq> 0 \<and>
      totalConversionValue ex_roas / 100 \<le> totalConversionValue ex_dedup / 100) \<and>
   calculateROASScore ex_roas 100 \<le> calculateROASScore ex_dedup 100 \<and>
   ((0.2::real) \<le> 1.2) \<and> calculateCTRScore 0.2 \<le> calculateCTRScore 1.2 \<and>
   ((8::real) \<le> 40) \<and> calculateCPMScore 40 \<le> calculateCPMScore 8 \<and>
   ((0.7::real) \<le> 6) \<and> calculateCPCScore 6 10 \<le> calculateCPCScore 0.7 10"
  using subscore_monotone [of 100 100 ex_roas ex_dedup "0.2" "1.2" 8 40 "0.7" 6 10]
    totalConversionValue_ex_roas totalConversionValue_ex_dedup
  by simp

subsection \<open>Rounded thresholds and blends\<close>

text \<open>
  A CTR of \<^verbatim>\<open>0.3\<close> reaches the threshold \<^verbatim>\<open>0.3\<close>: both are the same double. One click
  on 112 impressions has a click score of 18: the blend of rate and volume is a double just
  below 18.5, where the blend of the amounts is 18.5.
\<close>

lemma rounded_examples:
  "calculateCTRScore (to_double (3 / 10)) = 50"
  "calculateClickScore 1 112 = 18"
  "Math_round ((1 / 112 * 100 * 20) * (7 / 10) + 20 * (3 / 10)) = 19"
  by code_simp+

subsection \<open>Overlapping purchase action types\<close>

lemma Math_max_Max: "xs \<noteq> [] \<Longrightarrow> Math_max xs = Max (set xs)"
proof (cases xs)
  case Nil
  assume "xs \<noteq> []"
  with Nil show ?thesis by simp
next
  case (Cons y ys)
  have "Math_max (y # ys) = fold max ys y" by simp
  also have "\<dots> = Max (set (y # ys))" by (rule Max.set_eq_fold [symmetric])
  finally show ?thesis using Cons by simp
qed

lemma set_unique: "set (unique xs) = set xs"
  by (simp add: unique_def)

lemma results_max:
  assumes ne: "purchaseActions (actions d) \<noteq> []"
    and nonneg: "\<forall>a \<in> set (purchaseActions (actions d)). 0 \<le> val a"
  shows "results (getResultsData d) =
           Max ((\<lambda>a. of_int (parseInt (val a))) ` set (purchaseActions (actions d)))"
proof -
  let ?f = "\<lambda>a. (of_int (parseInt (val a)) :: real)"
  let ?P = "purchaseActions (actions d)"
  have fin: "finite (?f ` set ?P)" and ne': "?f ` set ?P \<noteq> {}" using ne by simp_all
  have "results (getResultsData d) = Math_max (map ?f ?P @ [0])"
    by (simp add: getResultsData_def Let_def)
  also have "\<dots> = Max (set (map ?f ?P @ [0]))" by (rule Math_max_Max) simp
  also have "\<dots> = Max (insert 0 (?f ` set ?P))" by simp
  also have "\<dots> = max 0 (Max (?f ` set ?P))" using fin ne' by (rule Max_insert)
  also have "\<dots> = Max (?f ` set ?P)"
  proof -
    obtain a where a: "a \<in> set ?P" using ne by (cases ?P) auto
    then have "0 \<le> val a" using nonneg by blast
    then have "0 \<le> ?f a" by (simp add: parseInt_def)
    moreover have "?f a \<le> Max (?f ` set ?P)" using a fin by (intro Max_ge) auto
    ultimately show ?thesis by simp
  qed
  finally show ?thesis .
qed

lemma conversion_value_max:
  assumes "purchaseActionValues d \<noteq> []"
  shows "totalConversionValue d = Max (val ` set (purchaseActionValues d))"
proof -
  have "unique (map val (purchaseActionValues d)) \<noteq> []"
    using assms set_unique [of "map val (purchaseActionValues d)"]
    by (metis list.map_disc_iff set_empty)
  then have "Math_max (unique (map val (purchaseActionValues d)))
      = Max (set (unique (map val (purchaseActionValues d))))" by (rule Math_max_Max)
  then show ?thesis using assms by (simp add: totalConversionValue_def set_unique)
qed

lemma purchaseActions_ex_dedup:
  "purchaseActions (actions ex_dedup) =
     [\<lparr>action_type = ''purchase'', val = 5\<rparr>,
      \<lparr>action_type = ''omni_purchase'', val = 5\<rparr>,
      \<lparr>action_type = ''onsite_web_purchase'', val = 8\<rparr>]"
  by (simp add: ex_dedup_def purchaseActions_def)

text \<open>
  C5. When the actions of a record hold several purchase action types (with counts that are
  not negative), the result count that \<^verbatim>\<open>getResultsData\<close> resolves is the maximum of
  the counts reported per action type, not their sum: counts 5, 5 and 8 resolve to 8. The
  conversion value that \<^verbatim>\<open>calculateROASScore\<close> uses is the maximum of the purchase
  values in the same way.
\<close>

theorem purchase_dedup_max:
  "(purchaseActions (actions d) \<noteq> [] \<and> (\<forall>a \<in> set (purchaseActions (actions d)). 0 \<le> val a)
      \<longrightarrow> results (getResultsData d) =
           Max ((\<lambda>a. of_int (parseInt (val a))) ` set (purchaseActions (actions d)))) \<and>
   (purchaseActionValues d \<noteq> []
      \<longrightarrow> totalConversionValue d = Max (val ` set (purchaseActionValues d)))"
  using results_max [of d] conversion_value_max [of d] by blast

theorem purchase_dedup_max_witness:
  "purchaseActions (actions ex_dedup) \<noteq> [] \<and>
   list_all (\<lambda>a. 0 \<le> val a) (purchaseActions (actions ex_dedup)) \<and>
   purchaseActionValues ex_dedup \<noteq> [] \<and>
   results (getResultsData ex_dedup) = 8 \<and>
   results (getResultsData ex_dedup) \<noteq> 5 + 5 + 8 \<and>
   totalConversionValue ex_dedup = 400"
  using purchase_dedup_max [of ex_dedup]
  by (simp add: purchaseActions_ex_dedup purchaseActionValues_ex_dedup parseInt_def)

section \<open>Properties of the cache store\<close>

lemma duration_of_configured:
  "map_of cacheDurations cat = Some d \<Longrightarrow> duration_of cat = Some d \<and> 0 < d"
  by (auto simp: duration_of_def cacheDurations_def split: if_splits)

lemma duration_of_unconfigured:
  "map_of cacheDurations cat = None \<Longrightarrow> duration_of cat = None"
  by (simp add: duration_of_def) (simp add: cacheDurations_def)

text \<open>
  For a configured category the round trip holds: a read at the time of the write
  returns the value, a read once the category's duration has passed returns nothing.
\<close>

lemma cache_roundtrip_configured:
  assumes "map_of cacheDurations cat = Some d" and "0 \<le> now s"
  shows "fst (getFromCache k (setCache k v cat s)) = Some v"
  using duration_of_configured [OF assms(1)] assms(2)
  by (simp add: getFromCache_def setCache_def truthy_def js_less_def)

lemma cache_expired_configured:
  assumes "map_of cacheDurations cat = Some d" and "0 \<le> now s" and "d \<le> e"
  shows "fst (getFromCache k ((setCache k v cat s)\<lparr>now := now s + e\<rparr>)) = None"
  using duration_of_configured [OF assms(1)] assms(2,3)
  by (simp add: getFromCache_def setCache_def truthy_def js_less_def js_ge_def)

text \<open>
  For any other category the duration is \<^verbatim>\<open>undefined\<close>, the expiry
  \<^verbatim>\<open>Date.now() + undefined\<close> is NaN, and no read ever returns the value.
\<close>

lemma cache_roundtrip_unconfigured:
  assumes "map_of cacheDurations cat = None"
  shows "fst (getFromCache k ((setCache k v cat s)\<lparr>now := now s + e\<rparr>)) = None"
  using duration_of_unconfigured [OF assms]
  by (simp add: getFromCache_def setCache_def truthy_def js_less_def js_ge_def)

text \<open>
  C1. The claim: a value written under any category is returned by a read that follows
  at once, under the default duration when the category is not a configured one. The
  code: a value written under \<^verbatim>\<open>'default'\<close> (the default of \<^verbatim>\<open>setCache\<close>'s parameter)
  or under \<^verbatim>\<open>'ad_insights'\<close> is not returned by a read at the same instant; the
  \<^verbatim>\<open>default\<close> entry that \<^verbatim>\<open>setCache\<close> falls back on exists only in the durations object
  that the constructor overwrites.
\<close>

theorem cache_default_ttl_missing:
  "fst (getFromCache ''k'' (setCache ''k'' (42::nat) ''default'' (new_service 1700000000000))) = None \<and>
   fst (getFromCache ''k'' (setCache ''k'' (42::nat) ''ad_insights'' (new_service 1700000000000))) = None \<and>
   fst (getFromCache ''k'' (setCache ''k'' (42::nat) ''account'' (new_service 1700000000000))) = Some 42 \<and>
   map_of cacheDurations_first ''default'' = Some 120000 \<and>
   map_of cacheDurations ''default'' = None"
  by (simp add: getFromCache_def setCache_def duration_of_def cacheDurations_def
      cacheDurations_first_def truthy_def js_less_def js_ge_def new_service_def)

section \<open>Properties of the request queue\<close>

text \<open>
  Whatever \<^verbatim>\<open>axios.get\<close> throws, \<^verbatim>\<open>executeRequest\<close> throws a new error without a
  \<^verbatim>\<open>response\<close>, so the test for status 429 in \<^verbatim>\<open>processRequestQueue\<close> fails and the
  request is rejected.
\<close>

lemma response_status_wrap_error: "response_status (wrap_error e) = None"
  by (simp add: wrap_error_def)

lemma after_reply_failure:
  "after_reply r (Inl e) s =
     run_queue (s\<lparr>settled := settled s @ [(caller r, Inl (wrap_error e))]\<rparr>)"
  by (simp add: after_reply_def executeRequest_settle_def response_status_wrap_error)

subsection \<open>Order of dispatch\<close>

text \<open>
  Requests are dispatched in the order of their \<^verbatim>\<open>makeRequest\<close> calls, whatever
  the replies are: at every moment the dispatch log, then the request the loop holds,
  then the queue make up the list of requests enqueued so far.
\<close>

lemma getFromCache_fields:
  "requestQueue (snd (getFromCache k s)) = requestQueue s"
  "isProcessingQueue (snd (getFromCache k s)) = isProcessingQueue s"
  "drain (snd (getFromCache k s)) = drain s"
  "dispatched (snd (getFromCache k s)) = dispatched s"
  by (simp_all add: getFromCache_def split: option.splits)

lemma executeRequest_cached_fields:
  "requestQueue (snd (executeRequest_cached r s)) = requestQueue s"
  "isProcessingQueue (snd (executeRequest_cached r s)) = isProcessingQueue s"
  "drain (snd (executeRequest_cached r s)) = drain s"
  "dispatched (snd (executeRequest_cached r s)) = dispatched s"
  by (simp_all add: executeRequest_cached_def Let_def getFromCache_fields)

lemma attempt_fields:
  "dispatched (snd (attempt r s)) = dispatched s @ [(r, now s)]"
  "requestQueue (snd (attempt r s)) = requestQueue s"
  "isProcessingQueue (snd (attempt r s)) = isProcessingQueue s"
  "\<not> fst (attempt r s) \<Longrightarrow> drain (snd (attempt r s)) = InFlight r"
proof -
  let ?s1 = "s\<lparr>dispatched := dispatched s @ [(r, now s)]\<rparr>"
  obtain c s2 where e: "executeRequest_cached r ?s1 = (c, s2)" by (cases "executeRequest_cached r ?s1")
  have f: "requestQueue s2 = requestQueue s" "isProcessingQueue s2 = isProcessingQueue s"
    "dispatched s2 = dispatched s @ [(r, now s)]"
    using executeRequest_cached_fields [of r ?s1] e by simp_all
  show "dispatched (snd (attempt r s)) = dispatched s @ [(r, now s)]"
    using e f by (cases c) (simp_all add: attempt_def Let_def resolved_def)
  show "requestQueue (snd (attempt r s)) = requestQueue s"
    using e f by (cases c) (simp_all add: attempt_def Let_def resolved_def)
  show "isProcessingQueue (snd (attempt r s)) = isProcessingQueue s"
    using e f by (cases c) (simp_all add: attempt_def Let_def resolved_def)
  show "\<not> fst (attempt r s) \<Longrightarrow> drain (snd (attempt r s)) = InFlight r"
    using e f by (cases c) (simp_all add: attempt_def Let_def resolved_def)
qed

lemma run_queue_inv:
  "isProcessingQueue s \<Longrightarrow> queue_inv (map fst (dispatched s) @ requestQueue s) (run_queue s)"
proof (induction s rule: run_queue.induct)
  case (1 s)
  show ?case
  proof (cases "requestQueue s")
    case Nil
    then show ?thesis
      by (subst run_queue.simps) (simp add: queue_inv_def waiting_def)
  next
    case (Cons request rest)
    let ?s1 = "s\<lparr>requestQueue := rest\<rparr>"
    show ?thesis
    proof (cases "now ?s1 - lastRequestTime ?s1 < requestDelay")
      case True
      then show ?thesis using Cons "1.prems"
        by (subst run_queue.simps) (simp add: queue_inv_def waiting_def Let_def)
    next
      case False
      obtain b s2 where att: "attempt request ?s1 = (b, s2)" by (cases "attempt request ?s1")
      have f: "dispatched s2 = dispatched s @ [(request, now s)]" "requestQueue s2 = rest"
        "isProcessingQueue s2" "\<not> b \<Longrightarrow> drain s2 = InFlight request"
        using attempt_fields [of request ?s1] att "1.prems" by simp_all
      show ?thesis
      proof (cases b)
        case True
        then have bt: "b = True" by simp
        have "queue_inv (map fst (dispatched s2) @ requestQueue s2) (run_queue s2)"
          by (rule "1.IH" [OF Cons refl refl False att [symmetric] bt f(3)])
        moreover have "run_queue s = run_queue s2"
          using Cons False att True by (subst run_queue.simps) (simp add: Let_def)
        ultimately show ?thesis using f Cons by simp
      next
        case False
        have "run_queue s = s2"
          using Cons \<open>\<not> now ?s1 - lastRequestTime ?s1 < requestDelay\<close> att False
          by (subst run_queue.simps) (simp add: Let_def)
        then show ?thesis using f False Cons by (simp add: queue_inv_def waiting_def)
      qed
    qed
  qed
qed

lemma queue_inv_step:
  assumes inv: "queue_inv calls s"
  shows "queue_inv (calls @ calls_of [ev]) (step ev s)"
proof (cases ev)
  case (Call r)
  show ?thesis
  proof (cases "isProcessingQueue s")
    case True
    then have "step ev s = s\<lparr>requestQueue := requestQueue s @ [r]\<rparr>"
      using Call by (simp add: makeRequest_def processRequestQueue_def)
    then show ?thesis using inv True Call by (auto simp: queue_inv_def waiting_def)
  next
    case False
    then have idle: "drain s = Idle" "requestQueue s = []" "waiting s = []"
      using inv by (auto simp: queue_inv_def waiting_def)
    let ?s1 = "s\<lparr>requestQueue := requestQueue s @ [r], isProcessingQueue := True\<rparr>"
    have "step ev s = run_queue ?s1"
      using Call False by (simp add: makeRequest_def processRequestQueue_def)
    moreover have "queue_inv (map fst (dispatched ?s1) @ requestQueue ?s1) (run_queue ?s1)"
      by (rule run_queue_inv) simp
    moreover have "map fst (dispatched ?s1) @ requestQueue ?s1 = calls @ calls_of [ev]"
      using inv idle Call by (simp add: queue_inv_def)
    ultimately show ?thesis by simp
  qed
next
  case (Tick d)
  then show ?thesis using inv by (simp add: queue_inv_def waiting_def)
next
  case Timer
  show ?thesis
  proof (cases "drain s")
    case Idle
    then show ?thesis using inv Timer by simp
  next
    case (Throttling r due)
    show ?thesis
    proof (cases "due \<le> now s")
      case False
      then show ?thesis using inv Timer Throttling by simp
    next
      case True
      have proc: "isProcessingQueue s" using inv Throttling by (simp add: queue_inv_def)
      have calls: "map fst (dispatched s) @ [r] @ requestQueue s = calls"
        using inv Throttling by (simp add: queue_inv_def waiting_def)
      obtain b s2 where att: "attempt r s = (b, s2)" by (cases "attempt r s")
      have f: "dispatched s2 = dispatched s @ [(r, now s)]" "requestQueue s2 = requestQueue s"
        "isProcessingQueue s2" "\<not> b \<Longrightarrow> drain s2 = InFlight r"
        using attempt_fields [of r s] att proc by simp_all
      show ?thesis
      proof (cases b)
        case True
        then have "step ev s = run_queue s2"
          using Timer Throttling \<open>due \<le> now s\<close> att by (simp add: after_throttle_def)
        moreover have "queue_inv (map fst (dispatched s2) @ requestQueue s2) (run_queue s2)"
          using f(3) by (rule run_queue_inv)
        ultimately show ?thesis using f calls Timer by simp
      next
        case False
        then have "step ev s = s2"
          using Timer Throttling \<open>due \<le> now s\<close> att by (simp add: after_throttle_def)
        then show ?thesis using f False calls Timer by (simp add: queue_inv_def waiting_def)
      qed
    qed
  next
    case (InFlight r)
    then show ?thesis using inv Timer by simp
  next
    case (BackingOff r due)
    then show ?thesis using inv by (simp add: queue_inv_def)
  qed
next
  case (Reply reply)
  show ?thesis
  proof (cases "drain s")
    case (InFlight r)
    have proc: "isProcessingQueue s" using inv InFlight by (simp add: queue_inv_def)
    have calls: "map fst (dispatched s) @ requestQueue s = calls"
      using inv InFlight by (simp add: queue_inv_def waiting_def)
    obtain s1 where s1: "step ev s = run_queue s1" and f: "isProcessingQueue s1"
      "dispatched s1 = dispatched s" "requestQueue s1 = requestQueue s"
      using Reply InFlight proc
      by (cases reply)
         (auto simp: after_reply_def executeRequest_settle_def wrap_error_def resolved_def
                     setCache_def Let_def)
    have "queue_inv (map fst (dispatched s1) @ requestQueue s1) (run_queue s1)"
      using f(1) by (rule run_queue_inv)
    then show ?thesis using s1 f calls Reply by simp
  qed (use inv Reply in simp_all)
qed

lemma calls_of_append: "calls_of (evs @ evs') = calls_of evs @ calls_of evs'"
  by (induction evs rule: calls_of.induct) simp_all

lemma queue_inv_run:
  "queue_inv calls s \<Longrightarrow> queue_inv (calls @ calls_of evs) (run evs s)"
proof (induction evs arbitrary: calls s)
  case Nil
  then show ?case by (simp add: run_def)
next
  case (Cons ev evs)
  have "queue_inv ((calls @ calls_of [ev]) @ calls_of evs) (run evs (step ev s))"
    by (rule Cons.IH) (rule queue_inv_step [OF Cons.prems])
  moreover have "calls_of (ev # evs) = calls_of [ev] @ calls_of evs"
    using calls_of_append [of "[ev]" evs] by simp
  ultimately show ?case by (simp add: run_def)
qed

lemma queue_inv_new: "queue_inv [] (new_service t)"
  by (simp add: queue_inv_def new_service_def waiting_def)

lemma fifo_dispatch:
  "map fst (dispatched (run evs (new_service t)))
     @ waiting (run evs (new_service t)) @ requestQueue (run evs (new_service t))
   = calls_of evs"
  using queue_inv_run [OF queue_inv_new, of evs t] by (simp add: queue_inv_def)

lemma reentrant_drain_noop: "isProcessingQueue s \<Longrightarrow> processRequestQueue s = s"
  by (simp add: processRequestQueue_def)

subsection \<open>Spacing\<close>

text \<open>
  The loop dispatches nothing while less than \<open>requestDelay\<close> has passed since
  \<^verbatim>\<open>lastRequestTime\<close>; a success sets \<^verbatim>\<open>lastRequestTime\<close>, so nothing is dispatched
  at the moment of a success.
\<close>

lemma run_queue_throttles:
  "now s - lastRequestTime s < requestDelay \<Longrightarrow> dispatched (run_queue s) = dispatched s"
  by (subst run_queue.simps) (simp add: Let_def split: list.splits)

lemma after_success_throttles: "dispatched (after_reply r (Inr v) s) = dispatched s"
proof -
  let ?s1 = "resolved r v (setCache (getCacheKey (endpoint r) (params r)) v (cacheType r) s)"
  have "now ?s1 - lastRequestTime ?s1 < requestDelay"
    by (simp add: resolved_def requestDelay_def)
  then have "dispatched (run_queue ?s1) = dispatched ?s1" by (rule run_queue_throttles)
  then show ?thesis
    by (simp add: after_reply_def executeRequest_settle_def resolved_def setCache_def Let_def)
qed

text \<open>
  C7. The claim: requests A, B, C enqueued in this order with no rate-limit failure are
  dispatched in this order, each at least \<open>requestDelay\<close> after the one before, and a
  second drain call while draining does nothing. The code: \<^verbatim>\<open>lastRequestTime\<close> is set
  only after a request has succeeded, so when A fails 3 ms after its dispatch (no
  connection), B is dispatched at once, 3 ms after A. When A succeeds after 3 ms, B waits
  for the timer and is dispatched 25 ms after A's success.
\<close>

theorem spacing_lost_after_failure:
  "dispatched (run [Call req_A, Call req_B, Tick 3, Reply (Inl refused)]
                 (new_service 1000 :: nat service))
     = [(req_A, 1000), (req_B, 1003)] \<and>
   (1003 :: int) - 1000 < requestDelay \<and>
   dispatched (run [Call req_A, Call req_B, Tick 3, Reply (Inr 7), Timer, Tick 25, Timer]
                 (new_service 1000 :: nat service))
     = [(req_A, 1000), (req_B, 1028)]"
  by code_simp

text \<open>
  C8. The claim: a request that fails with HTTP status 429 is not failed to its caller
  but goes back to the front of the queue after the back-off. The code: B fails with
  status 429, B's caller gets the failure, B is not queued again, and C is dispatched
  next, at the time of the failure.
\<close>

theorem rate_limit_not_requeued:
  "settled (run [Call req_B, Call req_C, Tick 120, Reply (Inl rate_limited)]
              (new_service 1000 :: nat service))
     = [(caller req_B,
         Inl (JsError None None ''Meta API request failed: User request limit reached''))] \<and>
   dispatched (run [Call req_B, Call req_C, Tick 120, Reply (Inl rate_limited)]
                 (new_service 1000 :: nat service))
     = [(req_B, 1000), (req_C, 1120)] \<and>
   requestQueue (run [Call req_B, Call req_C, Tick 120, Reply (Inl rate_limited)]
                   (new_service 1000 :: nat service)) = [] \<and>
   drain (run [Call req_B, Call req_C, Tick 120, Reply (Inl rate_limited)]
            (new_service 1000 :: nat service)) = InFlight req_C"
  by code_simp

section \<open>Properties of the insight resolution\<close>

subsection \<open>The loops as a search for the first accepted variant\<close>

lemma try_specific_find:
  "try_specific since' request as =
     (case find (\<lambda>a. date_matching since' (request a)) as of
        None \<Rightarrow> None
      | Some a \<Rightarrow> first_record (request a))"
proof (induction as)
  case Nil
  show ?case by simp
next
  case (Cons a as)
  show ?case
  proof (cases "date_matching since' (request a)")
    case True
    then obtain d rest where "request a = Inr (Some (d # rest))" and "isDateSpecific since' d"
      by (auto simp: date_matching_def first_record_def
               split: sum.splits option.splits list.splits)
    then show ?thesis using True by (simp add: first_record_def)
  next
    case False
    then have "try_specific since' request (a # as) = try_specific since' request as"
      by (auto simp: date_matching_def first_record_def
               split: sum.splits option.splits list.splits)
    then show ?thesis using False Cons by simp
  qed
qed

lemma try_ad_find:
  "try_ad request as =
     (case find (\<lambda>a. has_data (request a)) as of
        None \<Rightarrow> None
      | Some a \<Rightarrow> Some (processAdInsightsData (first_or_empty (request a))))"
proof (induction as)
  case Nil
  show ?case by simp
next
  case (Cons a as)
  show ?case
  proof (cases "has_data (request a)")
    case True
    then obtain records where r: "request a = Inr (Some records)"
      by (auto simp: has_data_def split: sum.splits option.splits)
    have "(case records of [] \<Rightarrow> empty_insights | d # _ \<Rightarrow> d) = first_or_empty (request a)"
      by (simp add: r first_or_empty_def first_record_def split: list.splits)
    then show ?thesis using True r by (simp add: Let_def)
  next
    case False
    then have "try_ad request (a # as) = try_ad request as"
      by (auto simp: has_data_def split: sum.splits option.splits)
    then show ?thesis using False Cons by simp
  qed
qed

lemma isDateSpecific_dates:
  "isDateSpecific since' d \<Longrightarrow> date_start d = Some since' \<and> date_stop d = Some since'"
  by (auto simp: isDateSpecific_def split: option.splits)

lemma try_specific_dates:
  assumes "try_specific since' request as = Some d"
  shows "date_start d = Some since' \<and> date_stop d = Some since'"
proof -
  from assms obtain a where f: "find (\<lambda>a. date_matching since' (request a)) as = Some a"
    and d: "first_record (request a) = Some d"
    by (auto simp: try_specific_find split: option.splits)
  from f have "date_matching since' (request a)" by (auto simp: find_Some_iff)
  with d have "isDateSpecific since' d" by (simp add: date_matching_def)
  then show ?thesis by (rule isDateSpecific_dates)
qed

lemma getAdInsights_miss:
  assumes "is_set t \<or> fst (getFromCache (''ad_insights_'' @ adId @ ''_'' @ dateRange) s) = None"
  shows "fst (getAdInsights upstream adId dateRange t s) =
           try_ad (upstream (adId @ ''/insights''))
             (approaches_ad dateRange (if is_set t then t else None))"
  using assms
  by (auto simp: getAdInsights_def Let_def split: prod.splits option.splits)

subsection \<open>The batch definition never accepts a variant\<close>

lemma try_batch_None: "try_batch since' request as = None"
  by (induction as)
     (auto simp: js_map_def processAdInsightsData_of_array_def
           split: sum.splits option.splits list.splits)

lemma total_ad_conversions_null:
  "ads \<noteq> [] \<Longrightarrow> \<forall>a \<in> set ads. ad_metrics a = None
     \<Longrightarrow> \<exists>e. total_ad_conversions ads acc = Inl e"
  by (cases ads) (auto simp: metrics_actions_def)

lemma processBasicAdsData_null: "\<forall>a \<in> set (processBasicAdsData ads). ad_metrics a = None"
  by (auto simp: processBasicAdsData_def Let_def)

text \<open>
  The batch definition of \<^verbatim>\<open>getAdInsights\<close> returns the empty list or throws: its loop
  throws at \<^verbatim>\<open>processedData.map\<close> for every date-matching reply, and its fallback reads
  \<^verbatim>\<open>ad.metrics.actions\<close> of ads whose \<^verbatim>\<open>metrics\<close> \<^verbatim>\<open>processBasicAdsData\<close> has set to
  \<^verbatim>\<open>null\<close>.
\<close>

lemma getAdInsights_batch_result:
  assumes a: "getAdInsights_batch cal upstream acct ads_reply account dateRange custom = Inr r"
  shows "r = FromAds []"
proof (cases ads_reply)
  case (Inl e)
  with a show ?thesis
    by (simp add: getAdInsights_batch_def Let_def try_batch_None getAdsData_def)
next
  case (Inr ads)
  show ?thesis
  proof (cases "processBasicAdsData ads = []")
    case True
    with a Inr show ?thesis
      by (simp add: getAdInsights_batch_def Let_def try_batch_None getAdsData_def)
  next
    case False
    obtain e where "total_ad_conversions (processBasicAdsData ads) 0 = Inl e"
      using total_ad_conversions_null [OF False processBasicAdsData_null] by blast
    with a Inr False show ?thesis
      by (simp add: getAdInsights_batch_def Let_def try_batch_None getAdsData_def
               split: sum.splits)
  qed
qed

subsection \<open>Acceptance\<close>

lemma strategy_examples:
  "getAdSpecificInsights cal_ex upstream_ex ''120'' ''today'' = Some fresh_record"
  "since (getDateRange cal_ex ''today'') = ''2024-05-05''"
  "date_start stale_record = Some ''2024-04-01''"
  "date_stop stale_record = Some ''2024-04-30''"
  "date_start fresh_record = Some (since (getDateRange cal_ex ''today''))"
  "date_stop fresh_record = Some (since (getDateRange cal_ex ''today''))"
  "fst (getFromCache (''ad_insights_'' @ ''120'' @ ''_'' @ ''today'')
          (new_service 1000 :: processed service)) = None"
  by code_simp+

lemma per_ad_example:
  "fst (getAdInsights upstream_ex ''120'' ''today'' None (new_service 1000))
     = Some (processAdInsightsData stale_record)"
proof -
  have "fst (getAdInsights upstream_ex ''120'' ''today'' None (new_service 1000))
      = try_ad (upstream_ex (''120'' @ ''/insights''))
          (approaches_ad ''today'' (if is_set None then None else None))"
    by (rule getAdInsights_miss) (use strategy_examples(7) in simp)
  also have "\<dots> = Some (processAdInsightsData stale_record)"
    by (simp add: approaches_ad_def upstream_ex_def)
  finally show ?thesis .
qed

text \<open>
  C2, as the claim states it, fails on the \<^verbatim>\<open>getAdInsights\<close> that callers reach: asked
  for the fifth of May, it accepts the reply of its first variant, a record for the whole
  of April, where \<^verbatim>\<open>getAdSpecificInsights\<close> passes that reply over.
\<close>

theorem per_ad_accepts_other_dates:
  "fst (getAdInsights upstream_ex ''120'' ''today'' None (new_service 1000))
     = Some (processAdInsightsData stale_record) \<and>
   since (getDateRange cal_ex ''today'') = ''2024-05-05'' \<and>
   date_start stale_record = Some ''2024-04-01'' \<and>
   date_stop stale_record = Some ''2024-04-30'' \<and>
   getAdSpecificInsights cal_ex upstream_ex ''120'' ''today'' = Some fresh_record"
  using strategy_examples per_ad_example by simp

text \<open>
  C2, amended. \<^verbatim>\<open>getAdSpecificInsights\<close> tries its variants in their fixed order and
  returns the first record of the first variant whose reply has a first record with
  \<^verbatim>\<open>date_start\<close> = \<^verbatim>\<open>date_stop\<close> = the requested date (every other reply makes it try
  the next variant, and it returns nothing when no variant is left), so what it returns
  reports the requested date. The \<^verbatim>\<open>getAdInsights\<close> for one ad, when its cache does not
  answer, tries its variants in their fixed order and returns the processed first record
  of the first variant whose reply has a \<^verbatim>\<open>data\<close> field, whatever dates it reports.
\<close>

theorem strategy_acceptance:
  "getAdSpecificInsights cal upstream adId dateRange =
     (case find (\<lambda>a. date_matching (since (getDateRange cal dateRange))
                        (upstream (adId @ ''/insights'') a))
             (approaches_specific (getDateRange cal dateRange) dateRange) of
        None \<Rightarrow> None
      | Some a \<Rightarrow> first_record (upstream (adId @ ''/insights'') a)) \<and>
   (\<forall>d. getAdSpecificInsights cal upstream adId dateRange = Some d \<longrightarrow>
          date_start d = Some (since (getDateRange cal dateRange)) \<and>
          date_stop d = Some (since (getDateRange cal dateRange))) \<and>
   (is_set t \<or> fst (getFromCache (''ad_insights_'' @ adId @ ''_'' @ dateRange) s) = None \<longrightarrow>
      fst (getAdInsights upstream adId dateRange t s) =
        (case find (\<lambda>a. has_data (upstream (adId @ ''/insights'') a))
                (approaches_ad dateRange (if is_set t then t else None)) of
           None \<Rightarrow> None
         | Some a \<Rightarrow>
             Some (processAdInsightsData (first_or_empty (upstream (adId @ ''/insights'') a)))))"
proof (intro conjI allI impI)
  show "getAdSpecificInsights cal upstream adId dateRange =
     (case find (\<lambda>a. date_matching (since (getDateRange cal dateRange))
                        (upstream (adId @ ''/insights'') a))
             (approaches_specific (getDateRange cal dateRange) dateRange) of
        None \<Rightarrow> None
      | Some a \<Rightarrow> first_record (upstream (adId @ ''/insights'') a))"
    by (simp add: getAdSpecificInsights_def Let_def try_specific_find)
next
  fix d
  assume "getAdSpecificInsights cal upstream adId dateRange = Some d"
  then have "try_specific (since (getDateRange cal dateRange)) (upstream (adId @ ''/insights''))
               (approaches_specific (getDateRange cal dateRange) dateRange) = Some d"
    by (simp add: getAdSpecificInsights_def Let_def)
  then have dates: "date_start d = Some (since (getDateRange cal dateRange)) \<and>
      date_stop d = Some (since (getDateRange cal dateRange))"
    by (rule try_specific_dates)
  from dates show "date_start d = Some (since (getDateRange cal dateRange))" by simp
  from dates show "date_stop d = Some (since (getDateRange cal dateRange))" by simp
next
  assume "is_set t \<or> fst (getFromCache (''ad_insights_'' @ adId @ ''_'' @ dateRange) s) = None"
  then show "fst (getAdInsights upstream adId dateRange t s) =
        (case find (\<lambda>a. has_data (upstream (adId @ ''/insights'') a))
                (approaches_ad dateRange (if is_set t then t else None)) of
           None \<Rightarrow> None
         | Some a \<Rightarrow>
             Some (processAdInsightsData (first_or_empty (upstream (adId @ ''/insights'') a))))"
    by (simp only: getAdInsights_miss try_ad_find)
qed

theorem strategy_acceptance_witness:
  "getAdSpecificInsights cal_ex upstream_ex ''120'' ''today'' = Some fresh_record \<and>
   date_start fresh_record = Some (since (getDateRange cal_ex ''today'')) \<and>
   date_stop fresh_record = Some (since (getDateRange cal_ex ''today'')) \<and>
   fst (getFromCache (''ad_insights_'' @ ''120'' @ ''_'' @ ''today'')
          (new_service 1000 :: processed service)) = None \<and>
   fst (getAdInsights upstream_ex ''120'' ''today'' None (new_service 1000))
     = Some (processAdInsightsData stale_record)"
  using strategy_acceptance [of cal_ex upstream_ex "''120''" "''today''" None "new_service 1000"]
    strategy_examples per_ad_example
  by simp

section \<open>Properties of the proportional allocation\<close>

subsection \<open>\<^verbatim>\<open>processAdsData\<close>, which nothing calls\<close>

text \<open>
  \<^verbatim>\<open>processAdsData\<close> shares account-level conversions by spend. No method of the class
  and no route calls it. What it would give an ad, with every product and quotient rounded
  as the source computes it:
\<close>

lemma not_purchase_purchase: "\<not> not_purchase \<lparr>action_type = ''purchase'', val = v\<rparr>"
  by (simp add: not_purchase_def)

lemma filter_purchase_none: "filter (\<lambda>a. \<not> not_purchase a) (filter not_purchase xs) = []"
  by (induction xs) auto

lemma processAdsData_nth:
  assumes "k < length (actualAds ads)"
  shows "ad_metrics (processAdsData ads acd ! k) =
           Some \<lparr>spend = spend (first_insights (actualAds ads ! k)),
                 impressions = of_int (parseInt (impressions (first_insights (actualAds ads ! k)))),
                 clicks = of_int (parseInt (clicks (first_insights (actualAds ads ! k)))),
                 ctr = ctr (first_insights (actualAds ads ! k)),
                 cpm = cpm (first_insights (actualAds ads ! k)),
                 cpc = cpc (first_insights (actualAds ads ! k)),
                 actions = fst (proportional ads acd (first_insights (actualAds ads ! k))),
                 action_values = snd (proportional ads acd (first_insights (actualAds ads ! k))),
                 date_start = None, date_stop = None\<rparr>"
  using assms by (simp add: processAdsData_def Let_def split: prod.splits)

lemma proportional_purchase_actions:
  "filter (\<lambda>a. \<not> not_purchase a) (fst (proportional ads (Some acd) i)) =
     (if totalAdSpend ads > 0 \<and> spend i > 0 \<and>
         Math_round (js_mul (of_int (totalAccountConversions acd))
                       (js_div (spend i) (totalAdSpend ads))) > 0
      then [\<lparr>action_type = ''purchase'',
             val = of_int (Math_round (js_mul (of_int (totalAccountConversions acd))
                                          (js_div (spend i) (totalAdSpend ads))))\<rparr>]
      else [])"
  by (simp add: proportional_def Let_def filter_purchase_none not_purchase_purchase)

lemma proportional_purchase_values:
  "filter (\<lambda>a. \<not> not_purchase a) (snd (proportional ads (Some acd) i)) =
     (if totalAdSpend ads > 0 \<and> spend i > 0 \<and>
         Math_round (js_mul (of_int (totalAccountConversions acd))
                       (js_div (spend i) (totalAdSpend ads))) > 0 \<and>
         js_mul (totalAccountConversionValue acd) (js_div (spend i) (totalAdSpend ads)) > 0
      then [\<lparr>action_type = ''purchase'',
             val = toFixed2 (js_mul (totalAccountConversionValue acd)
                               (js_div (spend i) (totalAdSpend ads)))\<rparr>]
      else [])"
  by (simp add: proportional_def Let_def filter_purchase_none not_purchase_purchase)

lemma actualAds_ex: "actualAds [ad_30, ad_70] = [ad_30, ad_70]"
  by (simp add: actualAds_def ad_30_def ad_70_def looks_like_adset_def toLowerCase_def
      upper_lower_def)

lemma first_insights_ex:
  "spend (first_insights ad_30) = 30" "spend (first_insights ad_70) = 70"
  by (simp_all add: first_insights_def ad_30_def ad_70_def empty_insights_def)

lemma share_examples:
  "js_add 0 30 = 30" "js_add 30 70 = 100"
  "Math_round (js_mul 10 (js_div 30 100)) = 3"
  "Math_round (js_mul 10 (js_div 70 100)) = 7"
  "Math_round (js_mul 1 (js_div 30 100)) = 0"
  "toFixed2 (js_mul 500 (js_div 30 100)) = 150"
  "toFixed2 (js_mul 500 (js_div 70 100)) = 350"
  "0 < js_mul 500 (js_div 30 100)" "0 < js_mul 500 (js_div 70 100)"
  by code_simp+

lemma totalAdSpend_ex: "totalAdSpend [ad_30, ad_70] = 100"
  by (simp add: totalAdSpend_def actualAds_ex first_insights_ex share_examples)

lemma account_10_totals:
  "totalAccountConversions account_10 = 10" "totalAccountConversionValue account_10 = 500"
  by (simp_all add: totalAccountConversions_def totalAccountConversionValue_def account_10_def
      empty_insights_def contains_purchase_def parseInt_def unique_def Let_def)

lemma account_1_totals:
  "totalAccountConversions account_1 = 1" "totalAccountConversionValue account_1 = 100"
  by (simp_all add: totalAccountConversions_def totalAccountConversionValue_def account_1_def
      empty_insights_def contains_purchase_def parseInt_def unique_def Let_def)

text \<open>
  Spends 30 and 70 and ten account-level conversions worth 500: 3 conversions worth 150,
  and 7 worth 350. With one conversion the ad that spent 30 gets nothing, value included.
\<close>

lemma processAdsData_shares:
  "purchase_actions_of (processAdsData [ad_30, ad_70] (Some account_10) ! 0)
     = [\<lparr>action_type = ''purchase'', val = 3\<rparr>]"
  "purchase_actions_of (processAdsData [ad_30, ad_70] (Some account_10) ! 1)
     = [\<lparr>action_type = ''purchase'', val = 7\<rparr>]"
  "purchase_values_of (processAdsData [ad_30, ad_70] (Some account_10) ! 0)
     = [\<lparr>action_type = ''purchase'', val = 150\<rparr>]"
  "purchase_values_of (processAdsData [ad_30, ad_70] (Some account_10) ! 1)
     = [\<lparr>action_type = ''purchase'', val = 350\<rparr>]"
  "purchase_actions_of (processAdsData [ad_30, ad_70] (Some account_1) ! 0) = []"
  "purchase_values_of (processAdsData [ad_30, ad_70] (Some account_1) ! 0) = []"
  using processAdsData_nth [of 0 "[ad_30, ad_70]"] processAdsData_nth [of 1 "[ad_30, ad_70]"]
  by (simp_all add: actualAds_ex purchase_actions_of_def purchase_values_of_def
      proportional_purchase_actions proportional_purchase_values
      account_10_totals account_1_totals first_insights_ex totalAdSpend_ex share_examples)

text \<open>
  The shares are rounded from doubles: eleven conversions and spends 15 and 7 give the
  first ad 7 conversions, where the share of the two amounts, 7.5, rounds to 8; a value
  of 0.075 is written 0.07.
\<close>

lemma share_rounding_examples:
  "Math_round (js_mul 11 (js_div 15 (js_add (js_add 0 15) 7))) = 7"
  "Math_round (11 * (15 / (15 + 7))) = 8"
  "toFixed2 (75 / 1000) = 7 / 100"
  by code_simp+

subsection \<open>The fallback of the batch definition\<close>

lemma fallback_examples:
  "list_all (\<lambda>a. \<not> date_matching ''2024-05-05'' (upstream_april ''act_1/insights'' a))
     (approaches_batch (getDateRange cal_ex ''today'') ''today'')"
  "map ad_id (processBasicAdsData [ad_30, ad_70]) = [''101'', ''102'']"
  "map ad_metrics (processBasicAdsData [ad_30, ad_70]) = [None, None]"
  "map insights_data (processBasicAdsData [ad_30, ad_70]) = [[], []]"
  "getAdInsights_batch cal_ex upstream_april ''act_1'' (Inr [ad_30, ad_70]) (Inr account_10)
       ''today'' (None, None)
     = Inl (JsError None None ''Cannot read properties of null'')"
  by code_simp+

text \<open>
  C6. The code does not distribute the account-level conversions. Its fallback is the end
  of the batch definition of \<^verbatim>\<open>getAdInsights\<close>. With no variant answering for the
  requested day, two listed ads that spent 30 and 70, and ten account-level conversions,
  \<^verbatim>\<open>getAdsData\<close> lists both ads without insights and with \<^verbatim>\<open>metrics: null\<close>, and the
  fallback throws a TypeError at \<^verbatim>\<open>ad.metrics.actions\<close> where 3 and 7 conversions were
  to be allocated. A call of \<^verbatim>\<open>getAdInsights\<close> does not get that far: the route's call
  runs the definition for one ad, which has no fallback.
\<close>

theorem fallback_allocation_throws:
  "list_all (\<lambda>a. \<not> date_matching ''2024-05-05'' (upstream_april ''act_1/insights'' a))
     (approaches_batch (getDateRange cal_ex ''today'') ''today'') \<and>
   spend (first_insights ad_30) = 30 \<and> spend (first_insights ad_70) = 70 \<and>
   totalAccountConversions account_10 = 10 \<and>
   getAdsData (Inr [ad_30, ad_70]) = Inr (processBasicAdsData [ad_30, ad_70]) \<and>
   map ad_id (processBasicAdsData [ad_30, ad_70]) = [''101'', ''102''] \<and>
   map insights_data (processBasicAdsData [ad_30, ad_70]) = [[], []] \<and>
   map ad_metrics (processBasicAdsData [ad_30, ad_70]) = [None, None] \<and>
   getAdInsights_batch cal_ex upstream_april ''act_1'' (Inr [ad_30, ad_70]) (Inr account_10)
       ''today'' (None, None)
     = Inl (JsError None None ''Cannot read properties of null'') \<and>
   call_getAdInsights cal_ex upstream_april ''act_1'' (Inr [ad_30, ad_70]) (Inr account_10)
       (route_ad_insights_args ''today'' ''50'' ''ACTIVE'') (new_service 1000)
     = PerAd (getAdInsights upstream_april ''[object Object]'' ''today'' None (new_service 1000))"
  by (simp add: fallback_examples first_insights_ex account_10_totals getAdsData_def
      call_getAdInsights_def route_ad_insights_args_def arg_def to_text_def or_default_def
      text_option_def prototype_def MetaService_methods_def)

section \<open>Properties of the class\<close>

lemma prototype_getAdInsights: "prototype ''getAdInsights'' = Some 978"
  by (simp add: prototype_def MetaService_methods_def)

lemma prototype_not_batch: "prototype name \<noteq> Some 665"
  by (simp add: prototype_def MetaService_methods_def)

text \<open>
  C10. The class defines \<^verbatim>\<open>getAdInsights\<close> twice; the name resolves to the later
  definition (line 978, for one ad), and no name resolves to the earlier one (line 665,
  for a batch). Every call of \<^verbatim>\<open>getAdInsights\<close> on the service runs the later
  definition: the route handler's call with one options object runs it with the ad id
  \<^verbatim>\<open>[object Object]\<close> and the date range \<^verbatim>\<open>today\<close>, and the batch definition's loop and
  fallback are never run.
\<close>

theorem getAdInsights_shadowed:
  "prototype ''getAdInsights'' = Some 978 \<and>
   (\<forall>name. prototype name \<noteq> Some 665) \<and>
   (\<forall>args. \<exists>r. call_getAdInsights cal upstream adAccountId ads_reply account args s = PerAd r) \<and>
   call_getAdInsights cal upstream adAccountId ads_reply account
       (route_ad_insights_args dateRange limit status) s
     = PerAd (getAdInsights upstream ''[object Object]'' ''today'' None s) \<and>
   call_getAdInsights cal upstream adAccountId ads_reply account [Str adId, Str dateRange] s
     = PerAd (getAdInsights upstream adId dateRange None s)"
  by (simp add: prototype_getAdInsights prototype_not_batch call_getAdInsights_def
      route_ad_insights_args_def arg_def to_text_def or_default_def text_option_def)

end
